theory Spec2Isabelle
  imports Complex_Main "HOL-Library.Multiset"
begin

section \<open>JavaScript values and strings\<close>

text \<open>
  The program is one script, \<^verbatim>\<open>js/main.js\<close>. Its strings are modelled as
  \<^typ>\<open>string\<close> (a list of characters), with the ASCII part of the builtins
  \<^verbatim>\<open>trim\<close> and \<^verbatim>\<open>toLowerCase\<close>. Its numbers are doubles; the model has the
  finite ones as exact rationals and \<^verbatim>\<open>NaN\<close> as a value of its own, and leaves out the
  infinities and the rounding of doubles.
\<close>

datatype number = NaN | Fin rat

text \<open>Truthiness of a number: \<^verbatim>\<open>NaN\<close> and \<^verbatim>\<open>0\<close> are falsy.\<close>

fun truthy_number :: "number \<Rightarrow> bool" where
  "truthy_number NaN = False"
| "truthy_number (Fin r) = (r \<noteq> 0)"

definition isWhiteSpace :: "char \<Rightarrow> bool" where
  "isWhiteSpace c = (c \<in> set [CHR 0x09, CHR 0x0A, CHR 0x0B, CHR 0x0C, CHR 0x0D, CHR '' ''])"

definition trim :: "string \<Rightarrow> string" where
  "trim s = rev (dropWhile isWhiteSpace (rev (dropWhile isWhiteSpace s)))"

definition lowerChar :: "char \<Rightarrow> char" where
  "lowerChar c =
     (let n = (of_char c :: nat) in if 65 \<le> n \<and> n \<le> 90 then char_of (n + 32) else c)"

definition toLowerCase :: "string \<Rightarrow> string" where
  "toLowerCase s = map lowerChar s"

text \<open>\<^verbatim>\<open>s.startsWith(q)\<close> and \<^verbatim>\<open>hay.includes(q)\<close>: a scan over the start positions.\<close>

fun startsWith :: "string \<Rightarrow> string \<Rightarrow> bool" where
  "startsWith s [] = True"
| "startsWith [] (q # qs) = False"
| "startsWith (c # cs) (q # qs) = (c = q \<and> startsWith cs qs)"

fun includesStr :: "string \<Rightarrow> string \<Rightarrow> bool" where
  "includesStr [] q = (q = [])"
| "includesStr (c # cs) q = (startsWith (c # cs) q \<or> includesStr cs q)"

subsection \<open>\<^verbatim>\<open>parseInt\<close> with no radix\<close>

text \<open>
  Leading white space is skipped, one sign is read, a prefix \<^verbatim>\<open>0x\<close> or \<^verbatim>\<open>0X\<close> selects
  radix 16, and the longest run of digits is the value; with no digit the result is
  \<^verbatim>\<open>NaN\<close>, here \<^term>\<open>None\<close>.
\<close>

definition digitVal :: "nat \<Rightarrow> char \<Rightarrow> nat option" where
  "digitVal radix c =
     (let n = (of_char c :: nat);
          v = (if 48 \<le> n \<and> n \<le> 57 then Some (n - 48)
               else if 97 \<le> n \<and> n \<le> 122 then Some (n - 87)
               else if 65 \<le> n \<and> n \<le> 90 then Some (n - 55)
               else None)
      in case v of None \<Rightarrow> None | Some d \<Rightarrow> if d < radix then Some d else None)"

fun digitsValue :: "nat \<Rightarrow> nat \<Rightarrow> string \<Rightarrow> nat" where
  "digitsValue radix acc [] = acc"
| "digitsValue radix acc (c # cs) =
     (case digitVal radix c of
        None \<Rightarrow> acc
      | Some d \<Rightarrow> digitsValue radix (acc * radix + d) cs)"

definition parseDigits :: "nat \<Rightarrow> string \<Rightarrow> nat option" where
  "parseDigits radix s =
     (case s of
        [] \<Rightarrow> None
      | c # cs \<Rightarrow> (if digitVal radix c = None then None else Some (digitsValue radix 0 s)))"

definition parseInt :: "string \<Rightarrow> int option" where
  "parseInt str =
     (let s = dropWhile isWhiteSpace str;
          neg = startsWith s ''-'';
          s1 = (if startsWith s ''+'' \<or> startsWith s ''-'' then tl s else s);
          hex = (startsWith s1 ''0x'' \<or> startsWith s1 ''0X'');
          s2 = (if hex then drop 2 s1 else s1)
      in case parseDigits (if hex then 16 else 10) s2 of
           None \<Rightarrow> None
         | Some n \<Rightarrow> Some (if neg then - int n else int n))"

section \<open>The record store and the query\<close>

record entry =
  rank :: rat
  university :: string
  country :: string
  score :: "number option"

text \<open>The filter and sort controls of the page, as the strings their \<^verbatim>\<open>value\<close> holds.\<close>

record controls =
  search :: string
  countrySel :: string
  rankMin :: string
  rankMax :: string
  sortSel :: string

text \<open>
  \<^verbatim>\<open>parseInt(v) || null\<close>: \<^verbatim>\<open>NaN\<close> and \<^verbatim>\<open>0\<close> are falsy, so both give
  \<^verbatim>\<open>null\<close>.
\<close>

definition boundOf :: "string \<Rightarrow> int option" where
  "boundOf v = (case parseInt v of None \<Rightarrow> None | Some n \<Rightarrow> if n = 0 then None else Some n)"

text \<open>
  The callback of \<^verbatim>\<open>state.data.filter\<close> in \<^verbatim>\<open>applyAll\<close>. A guard
  \<^verbatim>\<open>if(min && ...)\<close> tests the truthiness of the bound: \<^verbatim>\<open>null\<close> and \<^verbatim>\<open>0\<close>
  skip the test.
\<close>

definition keep :: "string \<Rightarrow> string \<Rightarrow> int option \<Rightarrow> int option \<Rightarrow> 'a entry_scheme \<Rightarrow> bool" where
  "keep q c mn mx item =
     (if q \<noteq> [] \<and> \<not> includesStr (toLowerCase (university item @ '' '' @ country item)) q then False
      else if c \<noteq> [] \<and> country item \<noteq> c then False
      else if (case mn of None \<Rightarrow> False | Some m \<Rightarrow> m \<noteq> 0 \<and> rank item < of_int m) then False
      else if (case mx of None \<Rightarrow> False | Some m \<Rightarrow> m \<noteq> 0 \<and> rank item > of_int m) then False
      else True)"

definition applyFilter :: "controls \<Rightarrow> 'a entry_scheme list \<Rightarrow> 'a entry_scheme list" where
  "applyFilter ui dat =
     (let q = toLowerCase (trim (search ui));
          c = countrySel ui;
          mn = boundOf (rankMin ui);
          mx = boundOf (rankMax ui)
      in filter (keep q c mn mx) dat)"

subsection \<open>Sorting\<close>

text \<open>
  \<^verbatim>\<open>Array.prototype.sort\<close> with a comparator is stable; on a consistent comparator
  its result is the one stable ordered arrangement, which insertion from the right
  computes: an element goes in front of the first one it does not compare greater than.
\<close>

fun insertBy :: "('a \<Rightarrow> 'a \<Rightarrow> rat) \<Rightarrow> 'a \<Rightarrow> 'a list \<Rightarrow> 'a list" where
  "insertBy cmp x [] = [x]"
| "insertBy cmp x (y # ys) = (if cmp x y \<le> 0 then x # y # ys else y # insertBy cmp x ys)"

definition sortBy :: "('a \<Rightarrow> 'a \<Rightarrow> rat) \<Rightarrow> 'a list \<Rightarrow> 'a list" where
  "sortBy cmp xs = foldr (insertBy cmp) xs []"

text \<open>\<^verbatim>\<open>(a.score||0)\<close>: \<^verbatim>\<open>null\<close>, \<^verbatim>\<open>NaN\<close> and \<^verbatim>\<open>0\<close> are falsy and give 0.\<close>

definition scoreOr0 :: "'a entry_scheme \<Rightarrow> rat" where
  "scoreOr0 a = (case score a of None \<Rightarrow> 0 | Some NaN \<Rightarrow> 0 | Some (Fin r) \<Rightarrow> r)"

text \<open>
  The comparator of \<^verbatim>\<open>applyAll\<close>, a \<^verbatim>\<open>switch\<close> on the sort control's value.
  \<^verbatim>\<open>String.prototype.localeCompare\<close> depends on the browser's locale and is the
  parameter \<open>lc\<close>.
\<close>

definition compareBy ::
  "(string \<Rightarrow> string \<Rightarrow> rat) \<Rightarrow> string \<Rightarrow> 'a entry_scheme \<Rightarrow> 'a entry_scheme \<Rightarrow> rat" where
  "compareBy lc sortVal a b =
     (if sortVal = ''rank-asc'' then rank a - rank b
      else if sortVal = ''rank-desc'' then rank b - rank a
      else if sortVal = ''score-asc'' then scoreOr0 a - scoreOr0 b
      else if sortVal = ''score-desc'' then scoreOr0 b - scoreOr0 a
      else if sortVal = ''name-asc'' then lc (university a) (university b)
      else if sortVal = ''name-desc'' then lc (university b) (university a)
      else if sortVal = ''country-asc'' then lc (country a) (country b)
      else rank a - rank b)"

record 'a app_state =
  data :: "'a entry_scheme list"
  visible :: "'a entry_scheme list"
  compact :: bool

text \<open>
  \<^verbatim>\<open>applyAll\<close>: the filter, then the sort, stored in \<^verbatim>\<open>state.visible\<close>. The
  rendering that follows writes to the page only.
\<close>

definition sortValOf :: "controls \<Rightarrow> string" where
  "sortValOf ui = (if sortSel ui = [] then ''rank-asc'' else sortSel ui)"

definition applyAll :: "(string \<Rightarrow> string \<Rightarrow> rat) \<Rightarrow> controls \<Rightarrow> 'a app_state \<Rightarrow> 'a app_state" where
  "applyAll lc ui st =
     st\<lparr>visible := sortBy (compareBy lc (sortValOf ui)) (applyFilter ui (data st))\<rparr>"

text \<open>
  A comparator is consistent when "not greater" is total and transitive and "equal"
  is "not greater" both ways; the language leaves the order open otherwise.
\<close>

definition consistent :: "('a \<Rightarrow> 'a \<Rightarrow> rat) \<Rightarrow> bool" where
  "consistent cmp =
     (\<forall>a b c. (cmp a b \<le> 0 \<or> cmp b a \<le> 0)
        \<and> (cmp a b \<le> 0 \<and> cmp b c \<le> 0 \<longrightarrow> cmp a c \<le> 0)
        \<and> ((cmp a b = 0) = (cmp a b \<le> 0 \<and> cmp b a \<le> 0)))"

text \<open>The sort keys whose comparator calls \<^verbatim>\<open>localeCompare\<close>.\<close>

definition byName :: "string \<Rightarrow> bool" where
  "byName sv = (sv = ''name-asc'' \<or> sv = ''name-desc'' \<or> sv = ''country-asc'')"

section \<open>Loading and normalising the data file\<close>

text \<open>
  The values a field of a parsed JSON element can hold. A missing field reads as
  \<^verbatim>\<open>undefined\<close>. An array or object is kept as the two things the code can ask of
  it: its text under \<^verbatim>\<open>String\<close> and its value under \<^verbatim>\<open>Number\<close>.
\<close>

datatype jsval = JUndefined | JNull | JBool bool | JNum number | JStr string | JObj string number

fun truthy :: "jsval \<Rightarrow> bool" where
  "truthy JUndefined = False"
| "truthy JNull = False"
| "truthy (JBool b) = b"
| "truthy (JNum n) = truthy_number n"
| "truthy (JStr s) = (s \<noteq> [])"
| "truthy (JObj s n) = True"

text \<open>\<^verbatim>\<open>a || b\<close>\<close>

definition orElse :: "jsval \<Rightarrow> jsval \<Rightarrow> jsval" where
  "orElse a b = (if truthy a then a else b)"


fun numberToString :: "(rat \<Rightarrow> string) \<Rightarrow> number \<Rightarrow> string" where
  "numberToString ns NaN = ''NaN''"
| "numberToString ns (Fin r) = ns r"

fun toString :: "(rat \<Rightarrow> string) \<Rightarrow> jsval \<Rightarrow> string" where
  "toString ns JUndefined = ''undefined''"
| "toString ns JNull = ''null''"
| "toString ns (JBool b) = (if b then ''true'' else ''false'')"
| "toString ns (JNum n) = numberToString ns n"
| "toString ns (JStr s) = s"
| "toString ns (JObj s n) = s"






datatype error = TypeError | SyntaxError | FetchError






section \<open>Ratings and notes in local storage\<close>

record aggregate =
  agg_sum :: int
  agg_count :: int

type_synonym ratings = "string \<rightharpoonup> aggregate"

record userNote =
  note_name :: string
  note_univ :: string
  note_text :: string
  note_rating :: "nat option"
  note_ts :: nat

text \<open>The values \<^verbatim>\<open>JSON.parse\<close> returns.\<close>

datatype json =
    JsNull
  | JsBool bool
  | JsNumber rat
  | JsString string
  | JsArray "json list"
  | JsObject "(string \<times> json) list"

text \<open>
  An item of \<^verbatim>\<open>localStorage\<close>, told apart by what the read path does with it:
  no item (\<^verbatim>\<open>getItem\<close> gives \<^verbatim>\<open>null\<close>), the empty text, a text that
  \<^verbatim>\<open>JSON.parse\<close> rejects, or a text that parses. A text that parses holds either a
  value of the shape the write path stores (an object of aggregates under
  \<^verbatim>\<open>ediguide_ratings_v1\<close>, an array of notes under \<^verbatim>\<open>ediguide_notes_v1\<close>), or any
  other value, such as \<^verbatim>\<open>null\<close>, \<^verbatim>\<open>5\<close> or, under the ratings key,
  \<^verbatim>\<open>[]\<close>.
\<close>

datatype 'a item = Missing | EmptyText | Unparsable | Misshapen json | Stored 'a

record storage =
  ls_ratings :: "ratings item"
  ls_notes :: "userNote list item"

text \<open>What a read path returns: a value of the stored shape, or the other value it parsed.\<close>

datatype 'a parsed = Wrong json | Shaped 'a

text \<open>
  \<^verbatim>\<open>JSON.parse(localStorage.getItem(k) || d)\<close>, where \<open>dflt\<close> is what the default
  text \<open>d\<close> parses to: \<^verbatim>\<open>null\<close> and the empty text are falsy.
\<close>

definition parseItem :: "'a \<Rightarrow> 'a item \<Rightarrow> error + 'a parsed" where
  "parseItem dflt it =
     (case it of
        Missing \<Rightarrow> Inr (Shaped dflt)
      | EmptyText \<Rightarrow> Inr (Shaped dflt)
      | Unparsable \<Rightarrow> Inl SyntaxError
      | Misshapen j \<Rightarrow> Inr (Wrong j)
      | Stored v \<Rightarrow> Inr (Shaped v))"

text \<open>\<^verbatim>\<open>loadRatings\<close>: the \<^verbatim>\<open>catch\<close> branch returns the empty object.\<close>

definition loadRatings :: "storage \<Rightarrow> ratings parsed" where
  "loadRatings ls =
     (case parseItem Map.empty (ls_ratings ls) of Inr v \<Rightarrow> v | Inl err \<Rightarrow> Shaped Map.empty)"

text \<open>
  \<^verbatim>\<open>saveRatings\<close> stores the text of the value, which parses to that value again.
\<close>

definition saveRatings :: "storage \<Rightarrow> ratings parsed \<Rightarrow> storage" where
  "saveRatings ls obj =
     ls\<lparr>ls_ratings := (case obj of Shaped m \<Rightarrow> Stored m | Wrong j \<Rightarrow> Misshapen j)\<rparr>"

text \<open>
  Reading \<^verbatim>\<open>all[univ]\<close>. The ratings object is an ordinary object: a name it does
  not hold itself is looked up in \<^verbatim>\<open>Object.prototype\<close>, whose members (functions, and
  the prototype object under \<^verbatim>\<open>__proto__\<close>) are all truthy.
\<close>

definition inheritedNames :: "string list" where
  "inheritedNames =
     [''constructor'', ''hasOwnProperty'', ''isPrototypeOf'', ''propertyIsEnumerable'',
      ''toLocaleString'', ''toString'', ''valueOf'', ''__proto__'',
      ''__defineGetter__'', ''__defineSetter__'', ''__lookupGetter__'', ''__lookupSetter__'']"

datatype property = Absent | Own aggregate | Inherited

definition getProp :: "ratings \<Rightarrow> string \<Rightarrow> property" where
  "getProp all uni =
     (case all uni of
        Some a \<Rightarrow> Own a
      | None \<Rightarrow> if uni \<in> set inheritedNames then Inherited else Absent)"

text \<open>
  The three statements of \<^verbatim>\<open>saveRating\<close> on an object of aggregates. The guard
  \<^verbatim>\<open>if(!all[univ])\<close> holds for an absent name only. The two updates
  \<^verbatim>\<open>all[univ].sum += value\<close> and \<^verbatim>\<open>all[univ].count += 1\<close> change the aggregate the
  object holds under the name; under an inherited name they write to the member of the
  prototype and leave the object as it is.
\<close>

definition updateAt :: "(aggregate \<Rightarrow> aggregate) \<Rightarrow> string \<Rightarrow> ratings \<Rightarrow> ratings" where
  "updateAt f uni all = (case all uni of None \<Rightarrow> all | Some a \<Rightarrow> all(uni \<mapsto> f a))"

definition rate :: "string \<Rightarrow> int \<Rightarrow> ratings \<Rightarrow> ratings" where
  "rate uni v all =
     (let all1 = (if getProp all uni = Absent then all(uni \<mapsto> \<lparr>agg_sum = 0, agg_count = 0\<rparr>)
                  else all);
          all2 = updateAt (\<lambda>a. a\<lparr>agg_sum := agg_sum a + v\<rparr>) uni all1;
          all3 = updateAt (\<lambda>a. a\<lparr>agg_count := agg_count a + 1\<rparr>) uni all2
      in all3)"

text \<open>
  \<^verbatim>\<open>saveRating\<close>. When \<^verbatim>\<open>loadRatings\<close> returns \<^verbatim>\<open>null\<close>, reading
  \<^verbatim>\<open>all[univ]\<close> throws. On any other value that is no object of aggregates the
  three statements follow the property rules of that kind of value (its own members and
  those of its prototype, which the engine supplies): the value they leave in \<open>all\<close>,
  as \<^verbatim>\<open>JSON.stringify\<close> writes it, or the error they throw, is the parameter
  \<open>other\<close>.
\<close>

definition saveRating ::
  "(json \<Rightarrow> string \<Rightarrow> int \<Rightarrow> error + ratings parsed) \<Rightarrow> string \<Rightarrow> int \<Rightarrow> storage
     \<Rightarrow> error + storage" where
  "saveRating other uni v ls =
     (case (case loadRatings ls of
              Shaped all \<Rightarrow> Inr (Shaped (rate uni v all))
            | Wrong JsNull \<Rightarrow> Inl TypeError
            | Wrong j \<Rightarrow> other j uni v) of
        Inl err \<Rightarrow> Inl err
      | Inr all' \<Rightarrow> Inr (saveRatings ls all'))"

text \<open>
  A batch of votes for one university, one \<^verbatim>\<open>saveRating\<close> per star click. A click
  whose handler throws leaves the storage as it was.
\<close>

fun saveVotes ::
  "(json \<Rightarrow> string \<Rightarrow> int \<Rightarrow> error + ratings parsed) \<Rightarrow> string \<Rightarrow> int list \<Rightarrow> storage
     \<Rightarrow> storage" where
  "saveVotes other uni [] ls = ls"
| "saveVotes other uni (v # vs) ls =
     saveVotes other uni vs (case saveRating other uni v ls of Inr ls' \<Rightarrow> ls' | Inl err \<Rightarrow> ls)"

text \<open>\<^verbatim>\<open>loadNotes\<close>: the \<^verbatim>\<open>catch\<close> branch returns the empty array.\<close>

definition loadNotes :: "storage \<Rightarrow> userNote list parsed" where
  "loadNotes ls = (case parseItem [] (ls_notes ls) of Inr v \<Rightarrow> v | Inl err \<Rightarrow> Shaped [])"

text \<open>The note object that \<^verbatim>\<open>saveNote\<close> builds, as a parsed value.\<close>

definition noteJson :: "userNote \<Rightarrow> json" where
  "noteJson n =
     JsObject [(''name'', JsString (note_name n)), (''univ'', JsString (note_univ n)),
               (''text'', JsString (note_text n)),
               (''rating'', case note_rating n of None \<Rightarrow> JsNull | Some k \<Rightarrow> JsNumber (of_nat k)),
               (''ts'', JsNumber (of_nat (note_ts n)))]"

text \<open>
  \<^verbatim>\<open>saveNoteLocal\<close>: the note goes to the front of the array. A parsed value that is
  no array has no \<^verbatim>\<open>unshift\<close>, and the call throws.
\<close>

definition saveNoteLocal :: "userNote \<Rightarrow> storage \<Rightarrow> error + storage" where
  "saveNoteLocal obj ls =
     (case loadNotes ls of
        Shaped arr \<Rightarrow> Inr (ls\<lparr>ls_notes := Stored (obj # arr)\<rparr>)
      | Wrong (JsArray xs) \<Rightarrow> Inr (ls\<lparr>ls_notes := Misshapen (JsArray (noteJson obj # xs))\<rparr>)
      | Wrong j \<Rightarrow> Inl TypeError)"

text \<open>
  \<^verbatim>\<open>notes.filter(n => n.univ === item.university).length\<close> in a table row. On a
  parsed value that is no array the call of \<^verbatim>\<open>filter\<close> throws; in an array, reading
  \<^verbatim>\<open>n.univ\<close> throws on a \<^verbatim>\<open>null\<close> element, and an element counts when it is an
  object whose \<^verbatim>\<open>univ\<close> is the university, the last of equal keys being the one
  \<^verbatim>\<open>JSON.parse\<close> keeps.
\<close>

fun noteMatches :: "string \<Rightarrow> json \<Rightarrow> error + bool" where
  "noteMatches uni JsNull = Inl TypeError"
| "noteMatches uni (JsObject kvs) = Inr (map_of (rev kvs) ''univ'' = Some (JsString uni))"
| "noteMatches uni (JsBool b) = Inr False"
| "noteMatches uni (JsNumber r) = Inr False"
| "noteMatches uni (JsString s) = Inr False"
| "noteMatches uni (JsArray xs) = Inr False"

fun countMatching :: "string \<Rightarrow> json list \<Rightarrow> error + nat" where
  "countMatching uni [] = Inr 0"
| "countMatching uni (x # xs) =
     (case noteMatches uni x of
        Inl err \<Rightarrow> Inl err
      | Inr b \<Rightarrow> (case countMatching uni xs of
                    Inl err \<Rightarrow> Inl err
                  | Inr k \<Rightarrow> Inr (if b then Suc k else k)))"

definition notesCount :: "userNote list parsed \<Rightarrow> string \<Rightarrow> error + nat" where
  "notesCount notes uni =
     (case notes of
        Shaped arr \<Rightarrow> Inr (length (filter (\<lambda>n. note_univ n = uni) arr))
      | Wrong (JsArray xs) \<Rightarrow> countMatching uni xs
      | Wrong j \<Rightarrow> Inl TypeError)"

text \<open>The confirmed branch of the handler of \<^verbatim>\<open>#clearNotes\<close>: both items are removed.\<close>

definition clearAll :: "storage \<Rightarrow> storage" where
  "clearAll ls = ls\<lparr>ls_notes := Missing, ls_ratings := Missing\<rparr>"

text \<open>The sum and the count recorded under a key, 0 when the key is absent.\<close>

definition sumAt :: "ratings \<Rightarrow> string \<Rightarrow> int" where
  "sumAt m uni = (case m uni of None \<Rightarrow> 0 | Some a \<Rightarrow> agg_sum a)"

definition countAt :: "ratings \<Rightarrow> string \<Rightarrow> int" where
  "countAt m uni = (case m uni of None \<Rightarrow> 0 | Some a \<Rightarrow> agg_count a)"

section \<open>CSV export\<close>

text \<open>\<^verbatim>\<open>Array.prototype.join\<close> on an array of strings.\<close>

fun join :: "string \<Rightarrow> string list \<Rightarrow> string" where
  "join sep [] = []"
| "join sep [x] = x"
| "join sep (x # y # ys) = x @ sep @ join sep (y # ys)"

text \<open>\<^verbatim>\<open>s.replace(/c/g, rep)\<close> for a single character \<open>c\<close>.\<close>

fun replaceAll :: "char \<Rightarrow> string \<Rightarrow> string \<Rightarrow> string" where
  "replaceAll c rep [] = []"
| "replaceAll c rep (x # xs) = (if x = c then rep else [x]) @ replaceAll c rep xs"

definition dquote :: char where
  "dquote = CHR 0x22"

definition quoted :: "string \<Rightarrow> string" where
  "quoted s = [dquote] @ replaceAll dquote [dquote, dquote] s @ [dquote]"

definition csvHeader :: "string list" where
  "csvHeader = [''rank'', ''university'', ''country'', ''score'']"

text \<open>
  One line of the export. \<^verbatim>\<open>join\<close> prints the numbers with \<^verbatim>\<open>String\<close>, the
  parameter \<open>ns\<close>.
\<close>

definition csvLine :: "(rat \<Rightarrow> string) \<Rightarrow> 'a entry_scheme \<Rightarrow> string" where
  "csvLine ns r =
     join '',''
       [ns (rank r),
        quoted (university r),
        quoted (country r),
        (case score r of None \<Rightarrow> [] | Some n \<Rightarrow> numberToString ns n)]"

text \<open>
  \<^verbatim>\<open>exportToCSV\<close>: the text handed to the download, or the alert when there is no
  row.
\<close>

definition exportToCSV :: "(rat \<Rightarrow> string) \<Rightarrow> 'a entry_scheme list \<Rightarrow> string + string" where
  "exportToCSV ns rows =
     (if rows = [] then Inl ''No rows to export''
      else Inr (join [CHR 0x0A]
                  (foldl (\<lambda>lines r. lines @ [csvLine ns r]) [join '','' csvHeader] rows)))"

subsection \<open>A reader for the exported text\<close>

text \<open>
  The script has no reader for its export. To state that the export can be read back,
  this is a reader of comma-separated text in the manner of RFC 4180: fields are
  separated by commas and records by line feeds; a field that opens with a double quote
  runs to the closing one, with a doubled double quote standing for one.
\<close>

datatype readState = FieldStart | Unquoted | Quoted | QuoteSeen

fun readCsv ::
  "readState \<Rightarrow> string \<Rightarrow> string list \<Rightarrow> string list list \<Rightarrow> string \<Rightarrow> string list list" where
  "readCsv st fld row rows [] = rows @ [row @ [fld]]"
| "readCsv FieldStart fld row rows (c # cs) =
     (if c = dquote then readCsv Quoted [] row rows cs
      else if c = CHR '','' then readCsv FieldStart [] (row @ [[]]) rows cs
      else if c = CHR 0x0A then readCsv FieldStart [] [] (rows @ [row @ [[]]]) cs
      else readCsv Unquoted [c] row rows cs)"
| "readCsv Unquoted fld row rows (c # cs) =
     (if c = CHR '','' then readCsv FieldStart [] (row @ [fld]) rows cs
      else if c = CHR 0x0A then readCsv FieldStart [] [] (rows @ [row @ [fld]]) cs
      else readCsv Unquoted (fld @ [c]) row rows cs)"
| "readCsv Quoted fld row rows (c # cs) =
     (if c = dquote then readCsv QuoteSeen fld row rows cs
      else readCsv Quoted (fld @ [c]) row rows cs)"
| "readCsv QuoteSeen fld row rows (c # cs) =
     (if c = dquote then readCsv Quoted (fld @ [dquote]) row rows cs
      else if c = CHR '','' then readCsv FieldStart [] (row @ [fld]) rows cs
      else if c = CHR 0x0A then readCsv FieldStart [] [] (rows @ [row @ [fld]]) cs
      else readCsv Unquoted (fld @ [c]) row rows cs)"

definition parseCsv :: "string \<Rightarrow> string list list" where
  "parseCsv s = readCsv FieldStart [] [] [] s"

text \<open>A text that an unquoted field can hold: no comma, no line feed, no double quote.\<close>

definition plain :: "string \<Rightarrow> bool" where
  "plain w = (\<forall>c \<in> set w. c \<noteq> CHR '','' \<and> c \<noteq> CHR 0x0A \<and> c \<noteq> dquote)"

text \<open>The four fields of a record as the export prints them.\<close>

definition scoreText :: "(rat \<Rightarrow> string) \<Rightarrow> 'a entry_scheme \<Rightarrow> string" where
  "scoreText ns r = (case score r of None \<Rightarrow> [] | Some n \<Rightarrow> numberToString ns n)"

definition fieldsOf :: "(rat \<Rightarrow> string) \<Rightarrow> 'a entry_scheme \<Rightarrow> string list" where
  "fieldsOf ns r = [ns (rank r), university r, country r, scoreText ns r]"

text \<open>
  What the round trip asks of the two builtins on the numbers of a record: the printed
  rank and score are plain, and \<^verbatim>\<open>Number\<close> (the parameter \<open>sn\<close>) reads each printed
  number back; a printed score is not the empty text, which stands for an absent one.
\<close>

definition printable :: "(rat \<Rightarrow> string) \<Rightarrow> 'a entry_scheme \<Rightarrow> bool" where
  "printable ns r = (plain (ns (rank r)) \<and> plain (scoreText ns r))"

definition readsBack :: "(rat \<Rightarrow> string) \<Rightarrow> (string \<Rightarrow> number) \<Rightarrow> 'a entry_scheme \<Rightarrow> bool" where
  "readsBack ns sn r =
     (sn (ns (rank r)) = Fin (rank r)
      \<and> (case score r of
           None \<Rightarrow> True
         | Some n \<Rightarrow> numberToString ns n \<noteq> [] \<and> sn (numberToString ns n) = n))"

text \<open>A record of four fields read as an entry; the empty score field is an absent score.\<close>

fun readEntry :: "(string \<Rightarrow> number) \<Rightarrow> string list \<Rightarrow> (number \<times> string \<times> string \<times> number option) option" where
  "readEntry sn [a, b, c, d] = Some (sn a, b, c, if d = [] then None else Some (sn d))"
| "readEntry sn fs = None"

text \<open>The four values of an entry that the export prints.\<close>

definition valuesOf :: "'a entry_scheme \<Rightarrow> number \<times> string \<times> string \<times> number option" where
  "valuesOf r = (Fin (rank r), university r, country r, score r)"

section \<open>Escaping and rendering\<close>

text \<open>The character class \<^verbatim>\<open>[&<>"']\<close> and the object literal of entities.\<close>

definition squote :: char where
  "squote = CHR 0x27"

definition isSpecial :: "char \<Rightarrow> bool" where
  "isSpecial c = (c \<in> set [CHR ''&'', CHR ''<'', CHR ''>'', dquote, squote])"

definition entityTable :: "(char \<times> string) list" where
  "entityTable =
     [(CHR ''&'', ''&amp;''), (CHR ''<'', ''&lt;''), (CHR ''>'', ''&gt;''),
      (dquote, ''&quot;''), (squote, ''&#39;'')]"

text \<open>The callback of the replacement: a key the table lacks would print as \<^verbatim>\<open>undefined\<close>.\<close>

definition entityOf :: "char \<Rightarrow> string" where
  "entityOf c = (case map_of entityTable c of Some e \<Rightarrow> e | None \<Rightarrow> ''undefined'')"

fun replaceEach :: "(char \<Rightarrow> bool) \<Rightarrow> (char \<Rightarrow> string) \<Rightarrow> string \<Rightarrow> string" where
  "replaceEach p f [] = []"
| "replaceEach p f (c # cs) = (if p c then f c else [c]) @ replaceEach p f cs"

text \<open>\<^verbatim>\<open>escapeHtml\<close>: a falsy argument gives the empty string.\<close>

definition escapeHtml :: "(rat \<Rightarrow> string) \<Rightarrow> jsval \<Rightarrow> string" where
  "escapeHtml ns str = (if \<not> truthy str then [] else replaceEach isSpecial entityOf (toString ns str))"

definition star :: string where
  "star = [CHR 0xE2, CHR 0x98, CHR 0x85]"

definition emDash :: string where
  "emDash = [CHR 0xE2, CHR 0x80, CHR 0x94]"

text \<open>\<^verbatim>\<open>s.repeat(n)\<close>\<close>

fun repeat :: "string \<Rightarrow> nat \<Rightarrow> string" where
  "repeat s 0 = []"
| "repeat s (Suc n) = s @ repeat s n"

text \<open>
  The callback of \<^verbatim>\<open>arr.map\<close> in \<^verbatim>\<open>renderNotesList\<close>. The date text of a time
  stamp is the parameter \<open>ds\<close>.
\<close>

definition noteHtml :: "(rat \<Rightarrow> string) \<Rightarrow> (nat \<Rightarrow> string) \<Rightarrow> userNote \<Rightarrow> string" where
  \<open>noteHtml ns ds n =
     ''\<newline>    <div class="note">\<newline>      <div class="meta">''
     @ escapeHtml ns (JStr (note_name n)) @ '' ''
     @ (if note_univ n \<noteq> [] then emDash @ '' '' @ escapeHtml ns (JStr (note_univ n)) else [])
     @ '' <span class="kv">('' @ ds (note_ts n) @ '')</span></div>\<newline>      <div class="body">''
     @ escapeHtml ns (orElse (JStr (note_text n)) (JStr [])) @ '' ''
     @ (case note_rating n of
          None \<Rightarrow> []
        | Some k \<Rightarrow> if k = 0 then [] else ''<div class="kv">Rating: '' @ repeat star k @ ''</div>'')
     @ ''</div>\<newline>    </div>\<newline>  ''\<close>

definition renderNotesList :: "(rat \<Rightarrow> string) \<Rightarrow> (nat \<Rightarrow> string) \<Rightarrow> userNote list \<Rightarrow> string" where
  \<open>renderNotesList ns ds arr =
     (if arr = [] then
        ''<p class="kv">No notes yet. Notes are stored locally in this browser only.</p>''
      else join [] (map (noteHtml ns ds) arr))\<close>

text \<open>
  \<^verbatim>\<open>renderStars\<close>: the loop over the five stars, then the average to one decimal,
  printed by the builtin \<^verbatim>\<open>toFixed\<close>, the parameter \<open>fx\<close>.
\<close>

definition truthyAvg :: "number option \<Rightarrow> bool" where
  "truthyAvg avg = (case avg of None \<Rightarrow> False | Some n \<Rightarrow> truthy_number n)"

definition reaches :: "number option \<Rightarrow> rat \<Rightarrow> bool" where
  "reaches avg t = (case avg of Some (Fin r) \<Rightarrow> r \<ge> t | _ \<Rightarrow> False)"

definition starHtml :: "number option \<Rightarrow> nat \<Rightarrow> string" where
  \<open>starHtml avg i =
     ''<span class="''
     @ (if truthyAvg avg \<and> reaches avg (of_nat i - 1 / 4) then ''star active'' else ''star'')
     @ ''" data-value="'' @ [char_of (48 + i)] @ ''">'' @ star @ ''</span>''\<close>

definition renderStars :: "(number \<Rightarrow> string) \<Rightarrow> number option \<Rightarrow> string" where
  \<open>renderStars fx avg =
     foldl (\<lambda>out i. out @ starHtml avg i) ''<span class="stars" aria-hidden="true">'' [1 ..< 6]
     @ ''</span>''
     @ (case avg of
          Some n \<Rightarrow> if truthy_number n then ''<span class="kv"> '' @ fx n @ ''</span>''
                    else ''<span class="kv"> (no ratings)</span>''
        | None \<Rightarrow> ''<span class="kv"> (no ratings)</span>'')\<close>

text \<open>
  \<^verbatim>\<open>r ? (r.sum / r.count) : null\<close>, where \<open>r\<close> is \<^verbatim>\<open>ratings[item.university]\<close>.
  A member of the prototype has no numeric \<^verbatim>\<open>sum\<close> and \<^verbatim>\<open>count\<close>, so the quotient
  is \<^verbatim>\<open>NaN\<close>. A count of 0 with a sum of 0 divides to \<^verbatim>\<open>NaN\<close> too; the write path
  stores positive counts only.
\<close>

definition average :: "property \<Rightarrow> number option" where
  "average r =
     (case r of
        Absent \<Rightarrow> None
      | Inherited \<Rightarrow> Some NaN
      | Own a \<Rightarrow> Some (if agg_count a = 0 then NaN else Fin (of_int (agg_sum a) / of_int (agg_count a))))"

text \<open>
  The average of a row. On \<^verbatim>\<open>null\<close> in place of the ratings object, reading
  \<^verbatim>\<open>ratings[item.university]\<close> throws. On any other value that is no object of
  aggregates the lookup and the quotient follow the property rules of that kind of value
  and throw nothing: the average they give is the parameter \<open>avgOther\<close>.
\<close>

definition rowAverage ::
  "(json \<Rightarrow> string \<Rightarrow> number option) \<Rightarrow> ratings parsed \<Rightarrow> string \<Rightarrow> error + number option" where
  "rowAverage avgOther ratings uni =
     (case ratings of
        Shaped m \<Rightarrow> Inr (average (getProp m uni))
      | Wrong JsNull \<Rightarrow> Inl TypeError
      | Wrong j \<Rightarrow> Inr (avgOther j uni))"

text \<open>The seven cells of a row, from its record, its average and its number of notes.\<close>

definition rowCells ::
  "(rat \<Rightarrow> string) \<Rightarrow> (number \<Rightarrow> string) \<Rightarrow> 'a entry_scheme \<Rightarrow> number option \<Rightarrow> nat \<Rightarrow> string" where
  \<open>rowCells ns fx item avg nCount =
     (let rankCell = ''<td><span class="rank-badge">'' @ ns (rank item) @ ''</span></td>'';
          uniCell = ''<td>\<newline>      <span class="univ-title">''
                    @ escapeHtml ns (JStr (university item))
                    @ ''</span>\<newline>      <span class="univ-sub">''
                    @ escapeHtml ns (JStr (university item))
                    @ ''</span>\<newline>    </td>'';
          countryCell = ''<td>'' @ escapeHtml ns (JStr (country item)) @ ''</td>'';
          scoreCell = ''<td>''
                    @ (case score item of None \<Rightarrow> emDash | Some n \<Rightarrow> numberToString ns n)
                    @ ''</td>'';
          adCell = ''<td><div class="ad-inner" style="padding:6px 8px; border-radius:6px;">Ad slot</div></td>'';
          ratingCell = ''<td class="rating-cell" data-univ="''
                    @ escapeHtml ns (JStr (university item)) @ ''">''
                    @ renderStars fx avg @ ''</td>'';
          notesCell = ''<td>''
                    @ (if nCount \<noteq> 0
                       then ns (of_nat nCount) @ '' note'' @ (if nCount > 1 then ''s'' else [])
                       else ''-'')
                    @ ''</td>''
      in rankCell @ uniCell @ countryCell @ scoreCell @ adCell @ ratingCell @ notesCell)\<close>

text \<open>
  The body of \<^verbatim>\<open>list.forEach\<close> in \<^verbatim>\<open>renderTable\<close>: the markup of one row, or
  the error thrown while the row is built.
\<close>

definition rowHtml ::
  "(rat \<Rightarrow> string) \<Rightarrow> (number \<Rightarrow> string) \<Rightarrow> (json \<Rightarrow> string \<Rightarrow> number option) \<Rightarrow> storage
     \<Rightarrow> 'a entry_scheme \<Rightarrow> error + string" where
  "rowHtml ns fx avgOther ls item =
     (let ratings = loadRatings ls
      in case rowAverage avgOther ratings (university item) of
           Inl err \<Rightarrow> Inl err
         | Inr avg \<Rightarrow>
             (case notesCount (loadNotes ls) (university item) of
                Inl err \<Rightarrow> Inl err
              | Inr nCount \<Rightarrow> Inr (rowCells ns fx item avg nCount)))"



text \<open>
  \<^verbatim>\<open>updateActiveFilters\<close>: the parts of the summary, from the values of the controls
  as they stand, and the markup of the list.
\<close>

definition enDash :: string where
  "enDash = [CHR 0xE2, CHR 0x80, CHR 0x93]"

definition infinitySign :: string where
  "infinitySign = [CHR 0xE2, CHR 0x88, CHR 0x9E]"

definition activeFilterParts :: "controls \<Rightarrow> string list" where
  "activeFilterParts ui =
     (let s = trim (search ui);
          parts1 = (if s \<noteq> [] then [''Query: '' @ [dquote] @ s @ [dquote]] else []);
          c = countrySel ui;
          parts2 = (if c \<noteq> [] then parts1 @ [''Country: '' @ c] else parts1);
          mn = rankMin ui;
          mx = rankMax ui
      in if (if mn \<noteq> [] then mn else mx) \<noteq> []
         then parts2 @ [''Rank: '' @ (if mn \<noteq> [] then mn else ''1'') @ enDash
                          @ (if mx \<noteq> [] then mx else infinitySign)]
         else parts2)"

definition activeFiltersHtml :: "(rat \<Rightarrow> string) \<Rightarrow> controls \<Rightarrow> string" where
  "activeFiltersHtml ns ui =
     (let parts = activeFilterParts ui
      in if parts \<noteq> [] then join [] (map (\<lambda>p. ''<li>'' @ escapeHtml ns (JStr p) @ ''</li>'') parts)
         else ''<li>None</li>'')"

section \<open>Example data\<close>

text \<open>The two records of the specification's filter scenario, and some settings of the controls.\<close>

definition eA :: entry where
  "eA = \<lparr>rank = 1, university = ''A U'', country = ''X'', score = Some (Fin 90)\<rparr>"

definition eB :: entry where
  "eB = \<lparr>rank = 2, university = ''B U'', country = ''Y'', score = Some (Fin 80)\<rparr>"

definition eC :: entry where
  "eC = \<lparr>rank = 3, university = ''C U'', country = ''Y'', score = None\<rparr>"

definition uiNone :: controls where
  "uiNone = \<lparr>search = [], countrySel = [], rankMin = [], rankMax = [], sortSel = []\<rparr>"

definition uiY :: controls where
  "uiY = uiNone\<lparr>countrySel := ''Y''\<rparr>"

definition uiZero :: controls where
  "uiZero = uiNone\<lparr>rankMin := ''-3'', rankMax := ''0''\<rparr>"

definition uiWords :: controls where
  "uiWords = uiNone\<lparr>rankMin := ''abc'', rankMax := ''top''\<rparr>"

definition uiScoreDesc :: controls where
  "uiScoreDesc = uiNone\<lparr>sortSel := ''score-desc''\<rparr>"

definition stOf :: "entry list \<Rightarrow> unit app_state" where
  "stOf xs = \<lparr>data = xs, visible = [], compact = False\<rparr>"

definition noLocale :: "string \<Rightarrow> string \<Rightarrow> rat" where
  "noLocale a b = 0"

definition eD :: entry where
  "eD = \<lparr>rank = 4, university = ''D U'', country = ''Z'', score = Some (Fin 80)\<rparr>"


definition lsEmpty :: storage where
  "lsEmpty = \<lparr>ls_ratings = Missing, ls_notes = Missing\<rparr>"

definition lsBroken :: storage where
  "lsBroken = \<lparr>ls_ratings = Unparsable, ls_notes = Unparsable\<rparr>"

text \<open>Both items hold the text \<^verbatim>\<open>null\<close>; both hold the text \<^verbatim>\<open>5\<close>.\<close>

definition lsNull :: storage where
  "lsNull = \<lparr>ls_ratings = Misshapen JsNull, ls_notes = Misshapen JsNull\<rparr>"

definition lsFive :: storage where
  "lsFive = \<lparr>ls_ratings = Misshapen (JsNumber 5), ls_notes = Misshapen (JsNumber 5)\<rparr>"

text \<open>The ratings item holds \<^verbatim>\<open>[]\<close>, the notes item \<^verbatim>\<open>{}\<close>.\<close>

definition lsSwapped :: storage where
  "lsSwapped = \<lparr>ls_ratings = Misshapen (JsArray []), ls_notes = Misshapen (JsObject [])\<rparr>"

text \<open>One vote of 2 stored for \<^verbatim>\<open>B U\<close>, beside a notes item that does not parse.\<close>

definition lsRated :: storage where
  "lsRated = \<lparr>ls_ratings = Stored [''B U'' \<mapsto> \<lparr>agg_sum = 2, agg_count = 1\<rparr>],
              ls_notes = Unparsable\<rparr>"

text \<open>Stand-ins for what the property rules give on a value of another kind.\<close>

definition noOther :: "json \<Rightarrow> string \<Rightarrow> int \<Rightarrow> error + ratings parsed" where
  "noOther j uni v = Inl TypeError"








definition nPlain :: userNote where
  "nPlain = \<lparr>note_name = ''anon'', note_univ = [], note_text = [],
             note_rating = Some 2, note_ts = 0\<rparr>"


text \<open>
  A printer and a reader of whole numbers in decimal, as stand-ins for \<^verbatim>\<open>String\<close> and
  \<^verbatim>\<open>Number\<close> on the numbers of the examples, and a record whose university holds a
  double quote, a comma and a line feed.
\<close>

fun digitsOf :: "nat \<Rightarrow> string" where
  "digitsOf n = (if n < 10 then [char_of (48 + n)] else digitsOf (n div 10) @ [char_of (48 + n mod 10)])"

definition decimal :: "rat \<Rightarrow> string" where
  "decimal r = (let z = \<lfloor>r\<rfloor> in if z < 0 then ''-'' @ digitsOf (nat (- z)) else digitsOf (nat z))"

definition readNumber :: "string \<Rightarrow> number" where
  "readNumber s = (case parseInt s of None \<Rightarrow> NaN | Some n \<Rightarrow> Fin (of_int n))"

definition eQ :: entry where
  "eQ = \<lparr>rank = 7, university = [CHR ''Q'', dquote, CHR '','', CHR 0x0A, CHR ''U''],
          country = ''X'', score = None\<rparr>"

definition eK :: entry where
  "eK = \<lparr>rank = 1000, university = ''K U'', country = ''Z'', score = None\<rparr>"



section \<open>Properties of the query\<close>

subsection \<open>Strings and bounds\<close>

lemma startsWith_iff: "startsWith s q = (\<exists>ss. s = q @ ss)"
  by (induction s q rule: startsWith.induct) auto

lemma includesStr_iff: "includesStr hay q = (\<exists>ps ss. hay = ps @ q @ ss)"
proof (induction hay)
  case Nil
  then show ?case by auto
next
  case (Cons c cs)
  show ?case
  proof
    assume "includesStr (c # cs) q"
    then consider "startsWith (c # cs) q" | "includesStr cs q" by auto
    then show "\<exists>ps ss. c # cs = ps @ q @ ss"
    proof cases
      case 1
      then obtain ss where "c # cs = q @ ss" using startsWith_iff by blast
      then have "c # cs = [] @ q @ ss" by simp
      then show ?thesis by blast
    next
      case 2
      then obtain ps ss where "cs = ps @ q @ ss" using Cons.IH by blast
      then have "c # cs = (c # ps) @ q @ ss" by simp
      then show ?thesis by blast
    qed
  next
    assume "\<exists>ps ss. c # cs = ps @ q @ ss"
    then obtain ps ss where e: "c # cs = ps @ q @ ss" by blast
    show "includesStr (c # cs) q"
    proof (cases ps)
      case Nil
      with e have "startsWith (c # cs) q" using startsWith_iff by auto
      then show ?thesis by simp
    next
      case (Cons p ps')
      with e have "cs = ps' @ q @ ss" by simp
      then have "includesStr cs q" using Cons.IH by blast
      then show ?thesis by simp
    qed
  qed
qed

lemma parseInt_empty: "parseInt [] = None"
  by (simp add: parseInt_def parseDigits_def)

lemma boundOf_empty: "boundOf [] = None"
  by (simp add: boundOf_def parseInt_empty)

lemma boundOf_NaN: "parseInt s = None \<Longrightarrow> boundOf s = None"
  by (simp add: boundOf_def)

lemma boundOf_nonzero: "boundOf s = Some n \<Longrightarrow> n \<noteq> 0"
  by (auto simp: boundOf_def split: option.splits if_splits)

lemma parseInt_minus3: "parseInt ''-3'' = Some (- 3)"
  by (simp add: parseInt_def parseDigits_def digitVal_def isWhiteSpace_def)

lemma parseInt_0: "parseInt ''0'' = Some 0"
  by (simp add: parseInt_def parseDigits_def digitVal_def isWhiteSpace_def)

lemma parseInt_abc: "parseInt ''abc'' = None"
  by (simp add: parseInt_def parseDigits_def digitVal_def isWhiteSpace_def)

lemma parseInt_top: "parseInt ''top'' = None"
  by (simp add: parseInt_def parseDigits_def digitVal_def isWhiteSpace_def)

text \<open>A bound that is present and not 0 is enforced.\<close>

lemma keep_rank_bounds:
  assumes "keep q c (Some lo) (Some hi) item" "lo \<noteq> 0" "hi \<noteq> 0"
  shows "of_int lo \<le> rank item \<and> rank item \<le> of_int hi"
  using assms by (auto simp: keep_def split: if_splits)

lemma applyFilter_rank_bounds:
  assumes "boundOf (rankMin ui) = Some lo" "boundOf (rankMax ui) = Some hi"
    and "item \<in> set (applyFilter ui xs)"
  shows "of_int lo \<le> rank item \<and> rank item \<le> of_int hi"
proof -
  from assms(3) have "keep (toLowerCase (trim (search ui))) (countrySel ui) (Some lo) (Some hi) item"
    by (simp add: applyFilter_def assms(1,2))
  then show ?thesis
    using keep_rank_bounds boundOf_nonzero assms(1,2) by blast
qed

subsection \<open>The sort\<close>

lemma set_insertBy: "set (insertBy cmp x ys) = insert x (set ys)"
  by (induction ys) auto

lemma mset_insertBy: "mset (insertBy cmp x ys) = add_mset x (mset ys)"
  by (induction ys) auto

lemma mset_sortBy: "mset (sortBy cmp xs) = mset xs"
  unfolding sortBy_def by (induction xs) (simp_all add: mset_insertBy)

lemma sorted_insertBy:
  assumes "consistent cmp" "sorted_wrt (\<lambda>a b. cmp a b \<le> 0) ys"
  shows "sorted_wrt (\<lambda>a b. cmp a b \<le> 0) (insertBy cmp x ys)"
  using assms(2)
proof (induction ys)
  case Nil
  then show ?case by simp
next
  case (Cons y ys)
  have tot: "\<And>a b. cmp a b \<le> 0 \<or> cmp b a \<le> 0"
    using assms(1) unfolding consistent_def by blast
  have tr: "\<And>a b c. cmp a b \<le> 0 \<Longrightarrow> cmp b c \<le> 0 \<Longrightarrow> cmp a c \<le> 0"
    using assms(1) unfolding consistent_def by blast
  show ?case
  proof (cases "cmp x y \<le> 0")
    case True
    with Cons.prems tr show ?thesis by auto
  next
    case False
    with tot have "cmp y x \<le> 0" by blast
    with False Cons show ?thesis by (auto simp: set_insertBy)
  qed
qed

lemma sorted_sortBy:
  assumes "consistent cmp"
  shows "sorted_wrt (\<lambda>a b. cmp a b \<le> 0) (sortBy cmp xs)"
  unfolding sortBy_def by (induction xs) (auto intro: sorted_insertBy[OF assms])

lemma filter_insertBy:
  assumes "consistent cmp"
  shows "filter (\<lambda>y. cmp k y = 0) (insertBy cmp x ys) = filter (\<lambda>y. cmp k y = 0) (x # ys)"
proof (induction ys)
  case Nil
  then show ?case by simp
next
  case (Cons y ys)
  have eq0: "\<And>a b. (cmp a b = 0) = (cmp a b \<le> 0 \<and> cmp b a \<le> 0)"
    using assms unfolding consistent_def by blast
  have tr: "\<And>a b c. cmp a b \<le> 0 \<Longrightarrow> cmp b c \<le> 0 \<Longrightarrow> cmp a c \<le> 0"
    using assms unfolding consistent_def by blast
  show ?case
  proof (cases "cmp x y \<le> 0")
    case True
    then show ?thesis by simp
  next
    case False
    have "\<not> (cmp k x = 0 \<and> cmp k y = 0)"
    proof
      assume h: "cmp k x = 0 \<and> cmp k y = 0"
      then have "cmp x k \<le> 0" "cmp k y \<le> 0" using eq0 by blast+
      then have "cmp x y \<le> 0" using tr by blast
      with False show False by simp
    qed
    with False Cons show ?thesis by auto
  qed
qed

lemma stable_sortBy:
  assumes "consistent cmp"
  shows "filter (\<lambda>y. cmp k y = 0) (sortBy cmp xs) = filter (\<lambda>y. cmp k y = 0) xs"
  unfolding sortBy_def by (induction xs) (simp_all add: filter_insertBy[OF assms])

lemma consistent_key:
  fixes f :: "'a \<Rightarrow> rat"
  shows "consistent (\<lambda>a b. f a - f b)"
  unfolding consistent_def by auto

lemma consistent_key_desc:
  fixes f :: "'a \<Rightarrow> rat"
  shows "consistent (\<lambda>a b. f b - f a)"
  unfolding consistent_def by auto

lemma consistent_flip: "consistent cmp \<Longrightarrow> consistent (\<lambda>a b. cmp b a)"
  unfolding consistent_def by blast

lemma consistent_on: "consistent cmp \<Longrightarrow> consistent (\<lambda>a b. cmp (f a) (f b))"
  unfolding consistent_def by blast

lemma consistent_if:
  "consistent f \<Longrightarrow> consistent g \<Longrightarrow> consistent (\<lambda>a b. if c then f a b else g a b)"
  by (cases c) simp_all

lemma consistent_noLocale: "consistent noLocale"
  unfolding consistent_def noLocale_def by simp

lemma consistent_compareBy:
  assumes "consistent lc"
  shows "consistent (compareBy lc sv)"
proof -
  have r: "consistent (\<lambda>a b :: 'a entry_scheme. rank a - rank b)"
    by (rule consistent_key)
  have r': "consistent (\<lambda>a b :: 'a entry_scheme. rank b - rank a)"
    by (rule consistent_key_desc)
  have s: "consistent (\<lambda>a b :: 'a entry_scheme. scoreOr0 a - scoreOr0 b)"
    by (rule consistent_key)
  have s': "consistent (\<lambda>a b :: 'a entry_scheme. scoreOr0 b - scoreOr0 a)"
    by (rule consistent_key_desc)
  have u: "consistent (\<lambda>a b :: 'a entry_scheme. lc (university a) (university b))"
    by (rule consistent_on[OF assms])
  have u': "consistent (\<lambda>a b :: 'a entry_scheme. lc (university b) (university a))"
    by (rule consistent_flip[OF u])
  have c: "consistent (\<lambda>a b :: 'a entry_scheme. lc (country a) (country b))"
    by (rule consistent_on[OF assms])
  show ?thesis
    unfolding compareBy_def
    by (intro consistent_if r r' s s' u u' c)
qed


lemma compareBy_no_locale: "\<not> byName sv \<Longrightarrow> compareBy lc sv = compareBy noLocale sv"
  by (intro ext) (simp add: compareBy_def byName_def)

lemma consistent_compareBy_numeric:
  assumes "\<not> byName sv"
  shows "consistent (compareBy lc sv :: 'a entry_scheme \<Rightarrow> 'a entry_scheme \<Rightarrow> rat)"
proof -
  have "consistent (compareBy noLocale sv :: 'a entry_scheme \<Rightarrow> 'a entry_scheme \<Rightarrow> rat)"
    by (rule consistent_compareBy[OF consistent_noLocale])
  then show ?thesis
    by (simp only: compareBy_no_locale[OF assms, of lc])
qed

lemma compareBy_rank_asc: "compareBy lc ''rank-asc'' a b = rank a - rank b"
  by (simp add: compareBy_def)

lemma compareBy_score_desc: "compareBy lc ''score-desc'' a b = scoreOr0 b - scoreOr0 a"
  by (simp add: compareBy_def)

lemma not_byName_rank_asc: "\<not> byName ''rank-asc''"
  by (simp add: byName_def)

lemma not_byName_score_desc: "\<not> byName ''score-desc''"
  by (simp add: byName_def)

subsection \<open>The shown records\<close>

lemma parseInt_2: "parseInt ''2'' = Some 2"
  by (simp add: parseInt_def parseDigits_def digitVal_def isWhiteSpace_def)

lemma parseInt_3: "parseInt ''3'' = Some 3"
  by (simp add: parseInt_def parseDigits_def digitVal_def isWhiteSpace_def)

lemma set_visible: "set (visible (applyAll lc ui st)) = set (applyFilter ui (data st))"
proof -
  have "mset (visible (applyAll lc ui st)) = mset (applyFilter ui (data st))"
    by (simp add: applyAll_def mset_sortBy)
  then show ?thesis
    by (rule mset_eq_setD)
qed

lemma keep_lower: "keep q c (Some lo) mx item \<Longrightarrow> lo \<noteq> 0 \<Longrightarrow> of_int lo \<le> rank item"
  by (auto simp: keep_def split: if_splits)

lemma keep_upper: "keep q c mn (Some hi) item \<Longrightarrow> hi \<noteq> 0 \<Longrightarrow> rank item \<le> of_int hi"
  by (auto simp: keep_def split: if_splits option.splits)

text \<open>A bound that \<^verbatim>\<open>parseInt(value) || null\<close> keeps, that is one other than 0, is enforced.\<close>

lemma rank_bounds_enforced:
  "(boundOf (rankMin ui) = Some R1 \<and> boundOf (rankMax ui) = Some R2 \<and> R1 \<le> R2 \<longrightarrow>
      (\<forall>item \<in> set (visible (applyAll lc ui (st :: 'a app_state))).
          of_int R1 \<le> rank item \<and> rank item \<le> of_int R2))
   \<and> (boundOf (rankMin ui) = Some R1 \<longrightarrow>
      (\<forall>item \<in> set (data st). rank item < of_int R1 \<longrightarrow> item \<notin> set (visible (applyAll lc ui st))))
   \<and> (boundOf (rankMax ui) = Some R2 \<longrightarrow>
      (\<forall>item \<in> set (data st). rank item > of_int R2 \<longrightarrow> item \<notin> set (visible (applyAll lc ui st))))"
proof (intro conjI impI ballI)
  fix item :: "'a entry_scheme"
  assume b: "boundOf (rankMin ui) = Some R1 \<and> boundOf (rankMax ui) = Some R2 \<and> R1 \<le> R2"
    and "item \<in> set (visible (applyAll lc ui st))"
  then have "item \<in> set (applyFilter ui (data st))"
    by (simp add: set_visible)
  with b show "of_int R1 \<le> rank item" "rank item \<le> of_int R2"
    using applyFilter_rank_bounds by blast+
next
  fix item :: "'a entry_scheme"
  assume b: "boundOf (rankMin ui) = Some R1" and lt: "rank item < of_int R1"
  show "item \<notin> set (visible (applyAll lc ui st))"
  proof
    assume "item \<in> set (visible (applyAll lc ui st))"
    then have "keep (toLowerCase (trim (search ui))) (countrySel ui) (Some R1) (boundOf (rankMax ui)) item"
      by (simp add: set_visible applyFilter_def b)
    then have "of_int R1 \<le> rank item"
      using keep_lower boundOf_nonzero[OF b] by blast
    with lt show False by simp
  qed
next
  fix item :: "'a entry_scheme"
  assume b: "boundOf (rankMax ui) = Some R2" and gt: "rank item > of_int R2"
  show "item \<notin> set (visible (applyAll lc ui st))"
  proof
    assume "item \<in> set (visible (applyAll lc ui st))"
    then have "keep (toLowerCase (trim (search ui))) (countrySel ui) (boundOf (rankMin ui)) (Some R2) item"
      by (simp add: set_visible applyFilter_def b)
    then have "rank item \<le> of_int R2"
      using keep_upper boundOf_nonzero[OF b] by blast
    with gt show False by simp
  qed
qed

section \<open>Properties of the local storage\<close>

lemma loadRatings_Stored: "loadRatings (ls\<lparr>ls_ratings := Stored m\<rparr>) = Shaped m"
  by (simp add: loadRatings_def parseItem_def)

lemma loadRatings_lsEmpty: "loadRatings lsEmpty = Shaped Map.empty"
  by (simp add: lsEmpty_def loadRatings_def parseItem_def)


lemma loadNotes_ratings_upd: "loadNotes (ls\<lparr>ls_ratings := it\<rparr>) = loadNotes ls"
  by (simp add: loadNotes_def)

text \<open>
  The read paths give the empty value where there is no item, the empty text, or a text
  that \<^verbatim>\<open>JSON.parse\<close> rejects; a text that parses is returned as parsed.
\<close>

lemma loadRatings_soft:
  "ls_ratings ls = Missing \<or> ls_ratings ls = EmptyText \<or> ls_ratings ls = Unparsable \<Longrightarrow>
   loadRatings ls = Shaped Map.empty"
  by (auto simp: loadRatings_def parseItem_def)

lemma loadNotes_soft:
  "ls_notes ls = Missing \<or> ls_notes ls = EmptyText \<or> ls_notes ls = Unparsable \<Longrightarrow>
   loadNotes ls = Shaped []"
  by (auto simp: loadNotes_def parseItem_def)

lemma loadRatings_Misshapen: "ls_ratings ls = Misshapen j \<Longrightarrow> loadRatings ls = Wrong j"
  by (simp add: loadRatings_def parseItem_def)

lemma loadNotes_Misshapen: "ls_notes ls = Misshapen j \<Longrightarrow> loadNotes ls = Wrong j"
  by (simp add: loadNotes_def parseItem_def)

lemma aggregate_upd: "(a :: aggregate)\<lparr>agg_sum := x, agg_count := y\<rparr> = \<lparr>agg_sum = x, agg_count = y\<rparr>"
  by (cases a) simp

lemma getProp_Inherited:
  "(getProp m u = Inherited) = (m u = None \<and> u \<in> set inheritedNames)"
  by (simp add: getProp_def split: option.split)

lemma getProp_upd: "getProp (m(u \<mapsto> a)) u = Own a"
  by (simp add: getProp_def)

text \<open>A vote under a name that is not inherited is recorded.\<close>

lemma rate_eq:
  assumes "getProp m u \<noteq> Inherited"
  shows "rate u v m = m(u \<mapsto> \<lparr>agg_sum = sumAt m u + v, agg_count = countAt m u + 1\<rparr>)"
proof (cases "m u")
  case None
  with assms have "getProp m u = Absent"
    by (simp add: getProp_def split: if_splits)
  with None show ?thesis
    by (simp add: rate_def updateAt_def Let_def sumAt_def countAt_def)
next
  case (Some a)
  then have "getProp m u = Own a"
    by (simp add: getProp_def)
  with Some show ?thesis
    by (simp add: rate_def updateAt_def Let_def sumAt_def countAt_def aggregate_upd)
qed

text \<open>A vote under an inherited name leaves the ratings object as it was.\<close>

lemma rate_inherited:
  assumes "getProp m u = Inherited"
  shows "rate u v m = m"
proof -
  from assms have "m u = None"
    by (simp add: getProp_Inherited)
  with assms show ?thesis
    by (simp add: rate_def updateAt_def Let_def)
qed

lemma rate_frame: "k \<noteq> u \<Longrightarrow> rate u v m k = m k"
  by (cases "getProp m u = Inherited") (simp_all add: rate_inherited rate_eq)

lemma saveRating_Shaped:
  "loadRatings ls = Shaped m \<Longrightarrow>
   saveRating other u v ls = Inr (ls\<lparr>ls_ratings := Stored (rate u v m)\<rparr>)"
  by (simp add: saveRating_def saveRatings_def)

lemma saveRating_null: "loadRatings ls = Wrong JsNull \<Longrightarrow> saveRating other u v ls = Inl TypeError"
  by (simp add: saveRating_def)

lemma saveRating_ratings_only:
  "saveRating other u v ls = Inr ls' \<Longrightarrow> \<exists>it. ls' = ls\<lparr>ls_ratings := it\<rparr>"
  by (auto simp: saveRating_def saveRatings_def split: parsed.splits json.splits sum.splits)

lemma sumAt_upd: "sumAt (m(u \<mapsto> a)) u = agg_sum a"
  by (simp add: sumAt_def)

lemma countAt_upd: "countAt (m(u \<mapsto> a)) u = agg_count a"
  by (simp add: countAt_def)

lemma rate_fold_closed:
  "vs \<noteq> [] \<Longrightarrow> getProp m u \<noteq> Inherited \<Longrightarrow>
   fold (rate u) vs m =
     m(u \<mapsto> \<lparr>agg_sum = sumAt m u + sum_list vs, agg_count = countAt m u + int (length vs)\<rparr>)"
proof (induction vs arbitrary: m)
  case Nil
  then show ?case by simp
next
  case (Cons v vs)
  note own = Cons.prems(2)
  show ?case
  proof (cases "vs = []")
    case True
    then show ?thesis
      by (simp add: rate_eq[OF own])
  next
    case False
    have own': "getProp (rate u v m) u \<noteq> Inherited"
      by (simp add: rate_eq[OF own] getProp_upd)
    have "fold (rate u) (v # vs) m = fold (rate u) vs (rate u v m)"
      by simp
    also have "\<dots> = (rate u v m)(u \<mapsto>
        \<lparr>agg_sum = sumAt (rate u v m) u + sum_list vs,
         agg_count = countAt (rate u v m) u + int (length vs)\<rparr>)"
      by (rule Cons.IH[OF False own'])
    also have "\<dots> = m(u \<mapsto>
        \<lparr>agg_sum = sumAt m u + sum_list (v # vs),
         agg_count = countAt m u + int (length (v # vs))\<rparr>)"
      by (simp add: rate_eq[OF own] sumAt_upd countAt_upd add.assoc)
    finally show ?thesis .
  qed
qed

lemma rate_fold_inherited: "getProp m u = Inherited \<Longrightarrow> fold (rate u) vs m = m"
  by (induction vs) (simp_all add: rate_inherited)

text \<open>A batch of votes on a stored object of aggregates.\<close>

lemma saveVotes_Shaped:
  "vs \<noteq> [] \<Longrightarrow> loadRatings ls = Shaped m \<Longrightarrow>
   saveVotes other u vs ls = ls\<lparr>ls_ratings := Stored (fold (rate u) vs m)\<rparr>"
proof (induction vs arbitrary: ls m)
  case Nil
  then show ?case by simp
next
  case (Cons v vs)
  note one = saveRating_Shaped[OF Cons.prems(2), of other u v]
  show ?case
  proof (cases "vs = []")
    case True
    then show ?thesis
      by (simp add: one)
  next
    case False
    have l: "loadRatings (ls\<lparr>ls_ratings := Stored (rate u v m)\<rparr>) = Shaped (rate u v m)"
      by (rule loadRatings_Stored)
    have "saveVotes other u (v # vs) ls = saveVotes other u vs (ls\<lparr>ls_ratings := Stored (rate u v m)\<rparr>)"
      by (simp add: one)
    also have "\<dots> = (ls\<lparr>ls_ratings := Stored (rate u v m)\<rparr>)
                        \<lparr>ls_ratings := Stored (fold (rate u) vs (rate u v m))\<rparr>"
      by (rule Cons.IH[OF False l])
    also have "\<dots> = ls\<lparr>ls_ratings := Stored (fold (rate u) (v # vs) m)\<rparr>"
      by simp
    finally show ?thesis .
  qed
qed

lemma saveVotes_closed:
  assumes "vs \<noteq> []" and "loadRatings ls = Shaped m" and "getProp m u \<noteq> Inherited"
  shows "saveVotes other u vs ls =
     ls\<lparr>ls_ratings := Stored (m(u \<mapsto>
        \<lparr>agg_sum = sumAt m u + sum_list vs, agg_count = countAt m u + int (length vs)\<rparr>))\<rparr>"
  by (simp only: saveVotes_Shaped[OF assms(1,2)] rate_fold_closed[OF assms(1,3)])

lemma saveVotes_inherited:
  assumes "vs \<noteq> []" and "loadRatings ls = Shaped m" and "getProp m u = Inherited"
  shows "saveVotes other u vs ls = ls\<lparr>ls_ratings := Stored m\<rparr>"
  by (simp only: saveVotes_Shaped[OF assms(1,2)] rate_fold_inherited[OF assms(3)])

lemma saveVotes_append:
  "saveVotes other u (xs @ ys) ls = saveVotes other u ys (saveVotes other u xs ls)"
  by (induction xs arbitrary: ls) simp_all

text \<open>
  The storage after a batch of votes on a stored object of aggregates depends on the votes
  as a multiset only.
\<close>

lemma saveVotes_mset:
  assumes "mset vs = mset ws" and "loadRatings ls = Shaped m"
  shows "saveVotes other u vs ls = saveVotes other u ws ls"
proof (cases "vs = []")
  case True
  with assms show ?thesis by simp
next
  case False
  with assms have w: "ws \<noteq> []" by auto
  show ?thesis
  proof (cases "getProp m u = Inherited")
    case True
    then show ?thesis
      by (simp only: saveVotes_inherited[OF False assms(2) True]
          saveVotes_inherited[OF w assms(2) True])
  next
    case own: False
    have "sum_mset (mset vs) = sum_mset (mset ws)"
      using assms by simp
    then have s: "sum_list vs = sum_list ws"
      by (simp only: sum_mset_sum_list)
    have "size (mset vs) = size (mset ws)"
      using assms by simp
    then have l: "length vs = length ws"
      by simp
    show ?thesis
      by (simp only: saveVotes_closed[OF False assms(2) own] saveVotes_closed[OF w assms(2) own] s l)
  qed
qed

text \<open>
  What \<^verbatim>\<open>saveRating\<close> does under a name that is not inherited: it creates the
  aggregate of one vote, or adds the vote to the aggregate that is there.
\<close>

lemma saveRating_accumulates:
  assumes "u \<notin> set inheritedNames" and "loadRatings ls = Shaped m"
  shows "m u = None \<Longrightarrow>
           saveRating other u v ls
             = Inr (ls\<lparr>ls_ratings := Stored (m(u \<mapsto> \<lparr>agg_sum = v, agg_count = 1\<rparr>))\<rparr>)"
    and "m u = Some a \<Longrightarrow>
           saveRating other u v ls
             = Inr (ls\<lparr>ls_ratings := Stored (m(u \<mapsto>
                      \<lparr>agg_sum = agg_sum a + v, agg_count = agg_count a + 1\<rparr>))\<rparr>)"
proof -
  have own: "getProp m u \<noteq> Inherited"
    using assms(1) by (simp add: getProp_Inherited)
  show "m u = None \<Longrightarrow>
           saveRating other u v ls
             = Inr (ls\<lparr>ls_ratings := Stored (m(u \<mapsto> \<lparr>agg_sum = v, agg_count = 1\<rparr>))\<rparr>)"
    by (simp add: saveRating_Shaped[OF assms(2)] rate_eq[OF own] sumAt_def countAt_def)
  show "m u = Some a \<Longrightarrow>
           saveRating other u v ls
             = Inr (ls\<lparr>ls_ratings := Stored (m(u \<mapsto>
                      \<lparr>agg_sum = agg_sum a + v, agg_count = agg_count a + 1\<rparr>))\<rparr>)"
    by (simp add: saveRating_Shaped[OF assms(2)] rate_eq[OF own] sumAt_def countAt_def)
qed

lemma saveVotes_example:
  assumes "u \<notin> set inheritedNames" and "loadRatings ls = Shaped m" and "m u = None"
  shows "saveVotes other u [4] (saveVotes other u [3, 5] ls)
           = ls\<lparr>ls_ratings := Stored (m(u \<mapsto> \<lparr>agg_sum = 12, agg_count = 3\<rparr>))\<rparr>"
    and "saveVotes other u [3, 5, 4] ls
           = ls\<lparr>ls_ratings := Stored (m(u \<mapsto> \<lparr>agg_sum = 12, agg_count = 3\<rparr>))\<rparr>"
proof -
  have own: "getProp m u \<noteq> Inherited"
    using assms(1) by (simp add: getProp_Inherited)
  have "saveVotes other u [4] (saveVotes other u [3, 5] ls) = saveVotes other u ([3, 5] @ [4]) ls"
    by (simp only: saveVotes_append)
  then have e: "saveVotes other u [4] (saveVotes other u [3, 5] ls) = saveVotes other u [3, 5, 4] ls"
    by simp
  show r: "saveVotes other u [3, 5, 4] ls
        = ls\<lparr>ls_ratings := Stored (m(u \<mapsto> \<lparr>agg_sum = 12, agg_count = 3\<rparr>))\<rparr>"
    by (subst saveVotes_closed[OF _ assms(2) own]) (simp_all add: assms(3) sumAt_def countAt_def)
  show "saveVotes other u [4] (saveVotes other u [3, 5] ls)
          = ls\<lparr>ls_ratings := Stored (m(u \<mapsto> \<lparr>agg_sum = 12, agg_count = 3\<rparr>))\<rparr>"
    by (simp only: e r)
qed

text \<open>The number of notes of a row, for an array of notes of the stored shape.\<close>

lemma notesCount_Shaped:
  "notesCount (Shaped arr) uni = Inr (length (filter (\<lambda>n. note_univ n = uni) arr))"
  by (simp add: notesCount_def)

section \<open>Properties of the data load\<close>











section \<open>Properties of escaping and rendering\<close>



























section \<open>Properties of the CSV export\<close>

lemma read_unquoted:
  assumes "\<forall>c \<in> set w. c \<noteq> CHR '','' \<and> c \<noteq> CHR 0x0A"
  shows "readCsv Unquoted fld row rows (w @ rest) = readCsv Unquoted (fld @ w) row rows rest"
  using assms by (induction w arbitrary: fld) simp_all

lemma read_plain:
  assumes "plain w"
  shows "readCsv FieldStart [] row rows (w @ CHR '','' # rest) = readCsv FieldStart [] (row @ [w]) rows rest"
    and "readCsv FieldStart [] row rows (w @ CHR 0x0A # rest) = readCsv FieldStart [] [] (rows @ [row @ [w]]) rest"
    and "readCsv FieldStart [] row rows w = rows @ [row @ [w]]"
proof -
  show "readCsv FieldStart [] row rows (w @ CHR '','' # rest) = readCsv FieldStart [] (row @ [w]) rows rest"
  proof (cases w)
    case Nil
    then show ?thesis by (simp add: dquote_def)
  next
    case (Cons c cs)
    with assms have c: "c \<noteq> dquote" "c \<noteq> CHR '',''" "c \<noteq> CHR 0x0A"
      and cs: "\<forall>c \<in> set cs. c \<noteq> CHR '','' \<and> c \<noteq> CHR 0x0A"
      by (auto simp: plain_def)
    show ?thesis
      using c by (simp add: Cons read_unquoted[OF cs])
  qed
  show "readCsv FieldStart [] row rows (w @ CHR 0x0A # rest) = readCsv FieldStart [] [] (rows @ [row @ [w]]) rest"
  proof (cases w)
    case Nil
    then show ?thesis by (simp add: dquote_def)
  next
    case (Cons c cs)
    with assms have c: "c \<noteq> dquote" "c \<noteq> CHR '',''" "c \<noteq> CHR 0x0A"
      and cs: "\<forall>c \<in> set cs. c \<noteq> CHR '','' \<and> c \<noteq> CHR 0x0A"
      by (auto simp: plain_def)
    show ?thesis
      using c by (simp add: Cons read_unquoted[OF cs])
  qed
  show "readCsv FieldStart [] row rows w = rows @ [row @ [w]]"
  proof (cases w)
    case Nil
    then show ?thesis by simp
  next
    case (Cons c cs)
    with assms have c: "c \<noteq> dquote" "c \<noteq> CHR '',''" "c \<noteq> CHR 0x0A"
      and cs: "\<forall>c \<in> set cs. c \<noteq> CHR '','' \<and> c \<noteq> CHR 0x0A"
      by (auto simp: plain_def)
    have "readCsv Unquoted [c] row rows (cs @ []) = readCsv Unquoted ([c] @ cs) row rows []"
      by (rule read_unquoted[OF cs])
    then show ?thesis
      using c by (simp add: Cons)
  qed
qed

lemma read_quoted_body:
  "readCsv Quoted fld row rows (replaceAll dquote [dquote, dquote] s @ dquote # rest)
     = readCsv QuoteSeen (fld @ s) row rows rest"
  by (induction s arbitrary: fld) simp_all

lemma read_quoted:
  "readCsv FieldStart [] row rows (quoted s @ CHR '','' # rest) = readCsv FieldStart [] (row @ [s]) rows rest"
  using read_quoted_body[of "[]" row rows s "CHR '','' # rest"]
  by (simp add: quoted_def) (simp add: dquote_def)

lemma csvLine_eq:
  "csvLine ns r = ns (rank r) @ CHR '','' # quoted (university r) @ CHR '','' #
                  quoted (country r) @ CHR '','' # scoreText ns r"
  by (simp add: csvLine_def scoreText_def)

lemma read_line:
  assumes "printable ns r"
  shows "readCsv FieldStart [] [] rows (csvLine ns r @ CHR 0x0A # rest)
           = readCsv FieldStart [] [] (rows @ [fieldsOf ns r]) rest"
    and "readCsv FieldStart [] [] rows (csvLine ns r) = rows @ [fieldsOf ns r]"
proof -
  from assms have a: "plain (ns (rank r))" and b: "plain (scoreText ns r)"
    by (simp_all add: printable_def)
  note p = read_plain[OF a] read_plain[OF b]
  show "readCsv FieldStart [] [] rows (csvLine ns r @ CHR 0x0A # rest)
           = readCsv FieldStart [] [] (rows @ [fieldsOf ns r]) rest"
    by (simp add: csvLine_eq p read_quoted fieldsOf_def)
  show "readCsv FieldStart [] [] rows (csvLine ns r) = rows @ [fieldsOf ns r]"
    by (simp add: csvLine_eq p read_quoted fieldsOf_def)
qed

lemma read_lines:
  assumes "\<forall>x \<in> set (r # rs). printable ns x"
  shows "readCsv FieldStart [] [] rows (join [CHR 0x0A] (map (csvLine ns) (r # rs)))
           = rows @ map (fieldsOf ns) (r # rs)"
  using assms
proof (induction rs arbitrary: r rows)
  case Nil
  then show ?case by (simp add: read_line(2))
next
  case (Cons r' rs)
  from Cons.prems have pr: "printable ns r" and rest: "\<forall>x \<in> set (r' # rs). printable ns x"
    by simp_all
  have "readCsv FieldStart [] [] rows (join [CHR 0x0A] (map (csvLine ns) (r # r' # rs)))
        = readCsv FieldStart [] [] rows
            (csvLine ns r @ CHR 0x0A # join [CHR 0x0A] (map (csvLine ns) (r' # rs)))"
    by simp
  also have "\<dots> = readCsv FieldStart [] [] (rows @ [fieldsOf ns r])
                      (join [CHR 0x0A] (map (csvLine ns) (r' # rs)))"
    by (rule read_line(1)[OF pr])
  also have "\<dots> = (rows @ [fieldsOf ns r]) @ map (fieldsOf ns) (r' # rs)"
    by (rule Cons.IH[OF rest])
  finally show ?case by simp
qed

lemma export_lines:
  "foldl (\<lambda>lines r. lines @ [csvLine ns r]) acc rows = acc @ map (csvLine ns) rows"
  by (induction rows arbitrary: acc) simp_all

lemma exportToCSV_eq:
  assumes "rows \<noteq> []"
  shows "exportToCSV ns rows =
           Inr (join [CHR 0x0A] (''rank,university,country,score'' # map (csvLine ns) rows))"
  using assms by (simp add: exportToCSV_def export_lines csvHeader_def)

lemma read_header:
  "readCsv FieldStart [] [] [] (''rank,university,country,score'' @ CHR 0x0A # rest)
     = readCsv FieldStart [] [] [csvHeader] rest"
  by (simp add: dquote_def csvHeader_def)

lemma parse_export:
  assumes "\<forall>x \<in> set rows. printable ns x" and "rows \<noteq> []"
  shows "parseCsv (join [CHR 0x0A] (''rank,university,country,score'' # map (csvLine ns) rows))
           = csvHeader # map (fieldsOf ns) rows"
proof -
  from assms(2) obtain r rs where rows: "rows = r # rs"
    by (cases rows) auto
  have "parseCsv (join [CHR 0x0A] (''rank,university,country,score'' # map (csvLine ns) rows))
        = readCsv FieldStart [] [] []
            (''rank,university,country,score'' @ CHR 0x0A # join [CHR 0x0A] (map (csvLine ns) (r # rs)))"
    by (simp add: parseCsv_def rows)
  also have "\<dots> = readCsv FieldStart [] [] [csvHeader] (join [CHR 0x0A] (map (csvLine ns) (r # rs)))"
    by (rule read_header)
  also have "\<dots> = [csvHeader] @ map (fieldsOf ns) (r # rs)"
    by (rule read_lines) (use assms(1) rows in simp)
  finally show ?thesis
    by (simp add: rows)
qed

lemma readEntry_fieldsOf:
  assumes "readsBack ns sn r"
  shows "readEntry sn (fieldsOf ns r) = Some (valuesOf r)"
proof (cases "score r")
  case None
  with assms show ?thesis
    by (simp add: fieldsOf_def valuesOf_def readsBack_def scoreText_def)
next
  case (Some n)
  with assms show ?thesis
    by (simp add: fieldsOf_def valuesOf_def readsBack_def scoreText_def)
qed

lemma replaceAll_concat: "replaceAll c rep s = concat (map (\<lambda>x. if x = c then rep else [x]) s)"
  by (induction s) simp_all

lemma ex_printable: "printable decimal eQ" "printable decimal eB"
  by code_simp+

lemma ex_readsBack: "readsBack decimal readNumber eQ" "readsBack decimal readNumber eB"
  by code_simp+

section \<open>Claims about the query\<close>

text \<open>
  C1. With both rank bounds given as integers \<open>R1 \<le> R2\<close>, every record shown has a rank
  from \<open>R1\<close> to \<open>R2\<close>. \<^verbatim>\<open>applyAll\<close> reads a bound with
  \<^verbatim>\<open>parseInt(value) || null\<close> and guards its test with \<^verbatim>\<open>if(max && ...)\<close>, so the
  integer 0 is dropped: with \<^verbatim>\<open>-3\<close> in the lower and \<^verbatim>\<open>0\<close> in the upper field, both
  of which parse to integers with \<open>-3 \<le> 0\<close>, the records of rank 1 and 1000 are shown,
  while \<^verbatim>\<open>updateActiveFilters\<close> lists the bound as set.
\<close>

theorem applyAll_zero_bound_dropped:
  "parseInt (rankMin uiZero) = Some (- 3)
   \<and> parseInt (rankMax uiZero) = Some 0
   \<and> boundOf (rankMax uiZero) = None
   \<and> visible (applyAll lc uiZero (stOf [eA, eK])) = [eA, eK]
   \<and> rank eA = 1 \<and> rank eK = 1000
   \<and> activeFilterParts uiZero = [''Rank: -3'' @ enDash @ ''0'']"
proof -
  have f: "applyFilter uiZero (data (stOf [eA, eK])) = [eA, eK]"
    by (simp add: uiZero_def uiNone_def stOf_def applyFilter_def eA_def eK_def keep_def
        boundOf_def parseInt_minus3 parseInt_0 trim_def toLowerCase_def)
  have sv: "sortValOf uiZero = ''rank-asc''"
    by (simp add: sortValOf_def uiZero_def uiNone_def)
  have v0: "visible (applyAll lc uiZero (stOf [eA, eK])) = sortBy (compareBy lc ''rank-asc'') [eA, eK]"
    by (simp add: applyAll_def f sv)
  have v: "visible (applyAll lc uiZero (stOf [eA, eK])) = [eA, eK]"
    unfolding v0 by (simp add: sortBy_def compareBy_rank_asc eA_def eK_def)
  have p: "activeFilterParts uiZero = [''Rank: -3'' @ enDash @ ''0'']"
    by (simp add: activeFilterParts_def uiZero_def uiNone_def trim_def)
  show ?thesis
    using v p
    by (simp add: uiZero_def uiNone_def boundOf_def parseInt_minus3 parseInt_0 eA_def eK_def)
qed

text \<open>
  C3. The text filter, when the search text (trimmed and lowercased, as \<^verbatim>\<open>applyAll\<close>
  reads it) is not empty, keeps a record exactly when that text occurs in the lowercased
  \<^verbatim>\<open>university + " " + country\<close>; the country filter, when a country is chosen, keeps
  a record exactly when its country is that string. Both are independent of the rank
  tests. On the two records of the scenario, choosing country \<^verbatim>\<open>Y\<close> leaves exactly the
  second one.
\<close>

theorem text_and_country_filter:
  "keep q c mn mx item =
     ((q \<noteq> [] \<longrightarrow> (\<exists>ps ss. toLowerCase (university item @ '' '' @ country item) = ps @ q @ ss))
      \<and> (c \<noteq> [] \<longrightarrow> country item = c)
      \<and> keep [] [] mn mx item)
   \<and> keep [] [] None None item
   \<and> applyFilter ui xs =
       filter (keep (toLowerCase (trim (search ui))) (countrySel ui)
                 (boundOf (rankMin ui)) (boundOf (rankMax ui))) xs
   \<and> visible (applyAll lc uiY (stOf [eA, eB])) = [eB]"
proof (intro conjI)
  show "keep q c mn mx item =
     ((q \<noteq> [] \<longrightarrow> (\<exists>ps ss. toLowerCase (university item @ '' '' @ country item) = ps @ q @ ss))
      \<and> (c \<noteq> [] \<longrightarrow> country item = c)
      \<and> keep [] [] mn mx item)"
    by (auto simp: keep_def includesStr_iff)
  show "keep [] [] None None item"
    by (simp add: keep_def)
  show "applyFilter ui xs =
       filter (keep (toLowerCase (trim (search ui))) (countrySel ui)
                 (boundOf (rankMin ui)) (boundOf (rankMax ui))) xs"
    by (simp add: applyFilter_def)
  show "visible (applyAll lc uiY (stOf [eA, eB])) = [eB]"
    by (simp add: uiY_def uiNone_def stOf_def applyAll_def sortBy_def applyFilter_def eA_def
        eB_def keep_def boundOf_empty trim_def toLowerCase_def)
qed

theorem text_and_country_filter_witness:
  "keep ''b u'' ''Y'' None None eB \<and> \<not> keep ''b u'' [] None None eA
   \<and> \<not> keep [] ''Y'' None None eA"
proof -
  have low: "toLowerCase (university eB @ '' '' @ country eB) = ''b u y''"
    by code_simp
  have "toLowerCase (university eB @ '' '' @ country eB) = [] @ ''b u'' @ '' y''"
    using low by simp
  then have ex: "\<exists>ps ss. toLowerCase (university eB @ '' '' @ country eB) = ps @ ''b u'' @ ss"
    by blast
  have cy: "country eB = ''Y''"
    by (simp add: eB_def)
  have rest: "keep [] [] None None eB"
    using text_and_country_filter[of "[]" "[]" None None eB] by blast
  have 1: "keep ''b u'' ''Y'' None None eB"
    using text_and_country_filter[of "''b u''" "''Y''" None None eB] ex cy rest by blast
  have lowA: "toLowerCase (university eA @ '' '' @ country eA) = ''a u x''"
    by code_simp
  have "\<not> includesStr ''a u x'' ''b u''"
    by simp
  then have nex: "\<not> (\<exists>ps ss. toLowerCase (university eA @ '' '' @ country eA) = ps @ ''b u'' @ ss)"
    using lowA includesStr_iff by simp
  have ne: "''b u'' \<noteq> []"
    by simp
  have 2: "\<not> keep ''b u'' [] None None eA"
    using text_and_country_filter[of "''b u''" "[]" None None eA] nex ne by blast
  have cx: "country eA \<noteq> ''Y''" "''Y'' \<noteq> []"
    by (simp_all add: eA_def)
  have 3: "\<not> keep [] ''Y'' None None eA"
    using text_and_country_filter[of "[]" "''Y''" None None eA] cx by blast
  from 1 2 3 show ?thesis by blast
qed

text \<open>
  C8. \<^verbatim>\<open>applyAll\<close> returns a list for every setting of the controls: the records it
  shows are some of the loaded ones, and the record store is left as it was. A rank
  bound that \<^verbatim>\<open>parseInt\<close> cannot read (it gives \<^verbatim>\<open>NaN\<close>) acts as the empty field
  does: the bound is absent and no rank test is made for it.
\<close>

theorem applyAll_total:
  "(\<exists>ys. visible (applyAll lc ui st) = ys \<and> mset ys \<subseteq># mset (data st))
   \<and> data (applyAll lc ui st) = data st
   \<and> (parseInt (rankMin ui) = None \<longrightarrow>
        boundOf (rankMin ui) = None \<and> applyAll lc ui st = applyAll lc (ui\<lparr>rankMin := []\<rparr>) st)
   \<and> (parseInt (rankMax ui) = None \<longrightarrow>
        boundOf (rankMax ui) = None \<and> applyAll lc ui st = applyAll lc (ui\<lparr>rankMax := []\<rparr>) st)
   \<and> (boundOf (rankMin ui) = None \<and> boundOf (rankMax ui) = None \<longrightarrow>
        applyFilter ui (data st) =
          filter (keep (toLowerCase (trim (search ui))) (countrySel ui) None None) (data st))"
proof (intro conjI impI)
  have "mset (visible (applyAll lc ui st)) = mset (applyFilter ui (data st))"
    by (simp add: applyAll_def mset_sortBy)
  also have "\<dots> \<subseteq># mset (data st)"
    by (simp add: applyFilter_def)
  finally show "\<exists>ys. visible (applyAll lc ui st) = ys \<and> mset ys \<subseteq># mset (data st)"
    by blast
  show "data (applyAll lc ui st) = data st"
    by (simp add: applyAll_def)
next
  assume "parseInt (rankMin ui) = None"
  then show "boundOf (rankMin ui) = None"
    by (rule boundOf_NaN)
  then show "applyAll lc ui st = applyAll lc (ui\<lparr>rankMin := []\<rparr>) st"
    by (simp add: applyAll_def applyFilter_def sortValOf_def boundOf_empty)
next
  assume "parseInt (rankMax ui) = None"
  then show "boundOf (rankMax ui) = None"
    by (rule boundOf_NaN)
  then show "applyAll lc ui st = applyAll lc (ui\<lparr>rankMax := []\<rparr>) st"
    by (simp add: applyAll_def applyFilter_def sortValOf_def boundOf_empty)
next
  assume "boundOf (rankMin ui) = None \<and> boundOf (rankMax ui) = None"
  then show "applyFilter ui (data st) =
          filter (keep (toLowerCase (trim (search ui))) (countrySel ui) None None) (data st)"
    by (simp add: applyFilter_def)
qed

theorem applyAll_total_witness:
  "parseInt (rankMin uiWords) = None \<and> parseInt (rankMax uiWords) = None
   \<and> visible (applyAll noLocale uiWords (stOf [eB, eA])) = [eA, eB]"
proof -
  have mn: "parseInt (rankMin uiWords) = None"
    by (simp add: uiWords_def uiNone_def parseInt_abc)
  have mx: "parseInt (rankMax uiWords) = None"
    by (simp add: uiWords_def uiNone_def parseInt_top)
  have mx': "parseInt (rankMax (uiWords\<lparr>rankMin := []\<rparr>)) = None"
    by (simp add: uiWords_def uiNone_def parseInt_top)
  have "applyAll noLocale uiWords (stOf [eB, eA]) =
        applyAll noLocale (uiWords\<lparr>rankMin := []\<rparr>) (stOf [eB, eA])"
    using applyAll_total[of noLocale uiWords "stOf [eB, eA]"] mn by blast
  also have "\<dots> = applyAll noLocale (uiWords\<lparr>rankMin := [], rankMax := []\<rparr>) (stOf [eB, eA])"
    using applyAll_total[of noLocale "uiWords\<lparr>rankMin := []\<rparr>" "stOf [eB, eA]"] mx' by blast
  also have "uiWords\<lparr>rankMin := [], rankMax := []\<rparr> = uiNone"
    by (simp add: uiWords_def uiNone_def)
  finally have "applyAll noLocale uiWords (stOf [eB, eA]) = applyAll noLocale uiNone (stOf [eB, eA])" .
  moreover have "visible (applyAll noLocale uiNone (stOf [eB, eA])) = [eA, eB]"
    by (simp add: uiNone_def stOf_def applyAll_def sortBy_def applyFilter_def eA_def eB_def
        keep_def boundOf_empty trim_def toLowerCase_def sortValOf_def compareBy_def)
  ultimately show ?thesis
    using mn mx by simp
qed

text \<open>
  C2. Under \<^verbatim>\<open>rank-asc\<close> the shown records are non-decreasing in rank; under
  \<^verbatim>\<open>score-desc\<close> they are non-increasing in score, where an absent score counts as
  0. The sort rearranges the filter's result and is stable: for every record \<open>k\<close>, the
  records that compare equal to \<open>k\<close> stand in the order the filter gave them. For the
  sort keys by name this needs \<^verbatim>\<open>localeCompare\<close> to be a consistent comparator.
\<close>

theorem sort_ordered_and_stable:
  "(sortValOf ui = ''rank-asc'' \<longrightarrow> sorted (map rank (visible (applyAll lc ui st))))
   \<and> (sortValOf ui = ''score-desc'' \<longrightarrow>
        sorted_wrt (\<lambda>x y. x \<ge> y) (map scoreOr0 (visible (applyAll lc ui st))))
   \<and> (\<forall>e. score e = None \<longrightarrow> scoreOr0 e = 0)
   \<and> (consistent lc \<or> \<not> byName (sortValOf ui) \<longrightarrow>
        (\<forall>k. filter (\<lambda>y. compareBy lc (sortValOf ui) k y = 0) (visible (applyAll lc ui st))
           = filter (\<lambda>y. compareBy lc (sortValOf ui) k y = 0) (applyFilter ui (data st))))
   \<and> mset (visible (applyAll lc ui st)) = mset (applyFilter ui (data st))"
proof (intro conjI impI allI)
  assume sv: "sortValOf ui = ''rank-asc''"
  have "consistent (compareBy lc ''rank-asc'' :: 'a entry_scheme \<Rightarrow> 'a entry_scheme \<Rightarrow> rat)"
    by (rule consistent_compareBy_numeric[OF not_byName_rank_asc])
  then have "sorted_wrt (\<lambda>a b. compareBy lc ''rank-asc'' a b \<le> 0)
               (sortBy (compareBy lc ''rank-asc'') (applyFilter ui (data st)))"
    by (rule sorted_sortBy)
  then show "sorted (map rank (visible (applyAll lc ui st)))"
    by (simp add: applyAll_def sv compareBy_rank_asc sorted_map)
next
  assume sv: "sortValOf ui = ''score-desc''"
  have "consistent (compareBy lc ''score-desc'' :: 'a entry_scheme \<Rightarrow> 'a entry_scheme \<Rightarrow> rat)"
    by (rule consistent_compareBy_numeric[OF not_byName_score_desc])
  then have "sorted_wrt (\<lambda>a b. compareBy lc ''score-desc'' a b \<le> 0)
               (sortBy (compareBy lc ''score-desc'') (applyFilter ui (data st)))"
    by (rule sorted_sortBy)
  then show "sorted_wrt (\<lambda>x y. x \<ge> y) (map scoreOr0 (visible (applyAll lc ui st)))"
    by (simp add: applyAll_def sv compareBy_score_desc sorted_wrt_map)
next
  fix e :: "'b entry_scheme"
  assume "score e = None"
  then show "scoreOr0 e = 0"
    by (simp add: scoreOr0_def)
next
  fix k
  assume "consistent lc \<or> \<not> byName (sortValOf ui)"
  then have "consistent (compareBy lc (sortValOf ui) :: 'a entry_scheme \<Rightarrow> 'a entry_scheme \<Rightarrow> rat)"
    using consistent_compareBy consistent_compareBy_numeric by blast
  then show "filter (\<lambda>y. compareBy lc (sortValOf ui) k y = 0) (visible (applyAll lc ui st))
           = filter (\<lambda>y. compareBy lc (sortValOf ui) k y = 0) (applyFilter ui (data st))"
    by (simp add: applyAll_def stable_sortBy)
next
  show "mset (visible (applyAll lc ui st)) = mset (applyFilter ui (data st))"
    by (simp add: applyAll_def mset_sortBy)
qed

theorem sort_ordered_and_stable_witness:
  "sortValOf uiScoreDesc = ''score-desc''
   \<and> consistent noLocale
   \<and> sorted_wrt (\<lambda>x y. x \<ge> y)
        (map scoreOr0 (visible (applyAll noLocale uiScoreDesc (stOf [eC, eD, eA, eB]))))
   \<and> filter (\<lambda>y. compareBy noLocale (sortValOf uiScoreDesc) eB y = 0)
        (visible (applyAll noLocale uiScoreDesc (stOf [eC, eD, eA, eB])))
      = [eD, eB]
   \<and> visible (applyAll noLocale uiScoreDesc (stOf [eC, eD, eA, eB])) = [eA, eD, eB, eC]"
proof -
  have sv: "sortValOf uiScoreDesc = ''score-desc''"
    by (simp add: sortValOf_def uiScoreDesc_def uiNone_def)
  have f: "applyFilter uiScoreDesc (data (stOf [eC, eD, eA, eB])) = [eC, eD, eA, eB]"
    by (simp add: applyFilter_def uiScoreDesc_def uiNone_def stOf_def keep_def boundOf_empty
        trim_def toLowerCase_def)
  have s: "sorted_wrt (\<lambda>x y. x \<ge> y)
        (map scoreOr0 (visible (applyAll noLocale uiScoreDesc (stOf [eC, eD, eA, eB]))))"
    using sort_ordered_and_stable[of uiScoreDesc noLocale "stOf [eC, eD, eA, eB]"] sv by blast
  have "filter (\<lambda>y. compareBy noLocale (sortValOf uiScoreDesc) eB y = 0)
        (visible (applyAll noLocale uiScoreDesc (stOf [eC, eD, eA, eB])))
      = filter (\<lambda>y. compareBy noLocale (sortValOf uiScoreDesc) eB y = 0)
          (applyFilter uiScoreDesc (data (stOf [eC, eD, eA, eB])))"
    using sort_ordered_and_stable[of uiScoreDesc noLocale "stOf [eC, eD, eA, eB]"]
      consistent_noLocale by blast
  also have "\<dots> = [eD, eB]"
    unfolding f sv by (simp add: compareBy_score_desc scoreOr0_def eA_def eB_def eC_def eD_def)
  finally have st: "filter (\<lambda>y. compareBy noLocale (sortValOf uiScoreDesc) eB y = 0)
        (visible (applyAll noLocale uiScoreDesc (stOf [eC, eD, eA, eB]))) = [eD, eB]" .
  have v0: "visible (applyAll noLocale uiScoreDesc (stOf [eC, eD, eA, eB]))
             = sortBy (compareBy noLocale ''score-desc'') [eC, eD, eA, eB]"
    by (simp add: applyAll_def f sv)
  have v: "visible (applyAll noLocale uiScoreDesc (stOf [eC, eD, eA, eB])) = [eA, eD, eB, eC]"
    unfolding v0
    by (simp add: sortBy_def compareBy_score_desc scoreOr0_def eA_def eB_def eC_def eD_def)
  from sv consistent_noLocale s st v show ?thesis by blast
qed


section \<open>Claims about the local storage\<close>

text \<open>
  C4. \<^verbatim>\<open>saveRating\<close> creates the aggregate \<open>{sum: value, count: 1}\<close> for a university
  key that the ratings map lacks. The guard \<^verbatim>\<open>if(!all[univ])\<close> reads the key through
  the prototype of the ratings object: for the university name \<^verbatim>\<open>constructor\<close>, which
  the empty map lacks, it finds the inherited member, creates nothing, and the vote is
  lost.
\<close>

theorem saveRating_inherited_name_lost:
  "loadRatings lsEmpty = Shaped Map.empty
   \<and> (Map.empty :: ratings) ''constructor'' = None
   \<and> getProp Map.empty ''constructor'' = Inherited
   \<and> rate ''constructor'' 5 Map.empty = Map.empty
   \<and> saveRating other ''constructor'' 5 lsEmpty = Inr (lsEmpty\<lparr>ls_ratings := Stored Map.empty\<rparr>)
   \<and> loadRatings (lsEmpty\<lparr>ls_ratings := Stored Map.empty\<rparr>) = Shaped Map.empty"
proof -
  have e: "loadRatings lsEmpty = Shaped Map.empty"
    by (rule loadRatings_lsEmpty)
  have n: "(Map.empty :: ratings) ''constructor'' = None"
    by simp
  have i: "getProp Map.empty ''constructor'' = Inherited"
    by (simp add: getProp_def inheritedNames_def)
  have r: "rate ''constructor'' 5 Map.empty = Map.empty"
    by (rule rate_inherited[OF i])
  have s: "saveRating other ''constructor'' 5 lsEmpty = Inr (lsEmpty\<lparr>ls_ratings := Stored Map.empty\<rparr>)"
    by (simp only: saveRating_Shaped[OF e] r)
  have l: "loadRatings (lsEmpty\<lparr>ls_ratings := Stored Map.empty\<rparr>) = Shaped Map.empty"
    by (rule loadRatings_Stored)
  show ?thesis
    by (intro conjI e n i r s l)
qed

text \<open>
  C9. On a stored ratings map, \<^verbatim>\<open>saveRating\<close> for the key \<open>u\<close> stores a ratings map
  in which the aggregate of every other key is as it was. Whatever the ratings item holds,
  a \<^verbatim>\<open>saveRating\<close> that returns does not touch the stored notes.
\<close>

theorem saveRating_frame:
  "(\<forall>m. loadRatings ls = Shaped m \<longrightarrow>
      (\<exists>m'. saveRating other u v ls = Inr (ls\<lparr>ls_ratings := Stored m'\<rparr>)
           \<and> loadRatings (ls\<lparr>ls_ratings := Stored m'\<rparr>) = Shaped m'
           \<and> (\<forall>k. k \<noteq> u \<longrightarrow> m' k = m k)))
   \<and> (\<forall>ls'. saveRating other u v ls = Inr ls' \<longrightarrow>
        ls_notes ls' = ls_notes ls \<and> loadNotes ls' = loadNotes ls)"
proof (intro conjI allI impI)
  fix m
  assume l: "loadRatings ls = Shaped m"
  have 1: "saveRating other u v ls = Inr (ls\<lparr>ls_ratings := Stored (rate u v m)\<rparr>)"
    by (rule saveRating_Shaped[OF l])
  have 2: "loadRatings (ls\<lparr>ls_ratings := Stored (rate u v m)\<rparr>) = Shaped (rate u v m)"
    by (rule loadRatings_Stored)
  have 3: "\<forall>k. k \<noteq> u \<longrightarrow> rate u v m k = m k"
    by (simp add: rate_frame)
  show "\<exists>m'. saveRating other u v ls = Inr (ls\<lparr>ls_ratings := Stored m'\<rparr>)
           \<and> loadRatings (ls\<lparr>ls_ratings := Stored m'\<rparr>) = Shaped m'
           \<and> (\<forall>k. k \<noteq> u \<longrightarrow> m' k = m k)"
    by (rule exI[of _ "rate u v m"]) (intro conjI 1 2 3)
next
  fix ls'
  assume "saveRating other u v ls = Inr ls'"
  then obtain it where s: "ls' = ls\<lparr>ls_ratings := it\<rparr>"
    using saveRating_ratings_only by blast
  show "ls_notes ls' = ls_notes ls"
    by (simp add: s)
  show "loadNotes ls' = loadNotes ls"
    by (simp add: s loadNotes_ratings_upd)
qed

theorem saveRating_frame_witness:
  "loadRatings lsRated = Shaped [''B U'' \<mapsto> \<lparr>agg_sum = 2, agg_count = 1\<rparr>]
   \<and> ''B U'' \<noteq> ''A U''
   \<and> (\<exists>m'. saveRating noOther ''A U'' 4 lsRated = Inr (lsRated\<lparr>ls_ratings := Stored m'\<rparr>)
          \<and> m' ''B U'' = Some \<lparr>agg_sum = 2, agg_count = 1\<rparr>
          \<and> ls_notes (lsRated\<lparr>ls_ratings := Stored m'\<rparr>) = Unparsable)"
proof -
  let ?m = "[''B U'' \<mapsto> \<lparr>agg_sum = 2, agg_count = 1\<rparr>]"
  have l: "loadRatings lsRated = Shaped ?m"
    by (simp add: lsRated_def loadRatings_def parseItem_def)
  have ne: "''B U'' \<noteq> ''A U''"
    by simp
  from saveRating_frame[where ls = lsRated and other = noOther and u = "''A U''" and v = 4,
      THEN conjunct1, THEN spec, THEN mp, OF l]
  obtain m' where s: "saveRating noOther ''A U'' 4 lsRated = Inr (lsRated\<lparr>ls_ratings := Stored m'\<rparr>)"
    and f: "\<forall>k. k \<noteq> ''A U'' \<longrightarrow> m' k = ?m k"
    by blast
  from f ne have b: "m' ''B U'' = Some \<lparr>agg_sum = 2, agg_count = 1\<rparr>"
    by simp
  have "ls_notes (lsRated\<lparr>ls_ratings := Stored m'\<rparr>) = ls_notes lsRated"
    by (rule saveRating_frame[where ls = lsRated and other = noOther and u = "''A U''" and v = 4,
          THEN conjunct2, THEN spec, THEN mp,
          OF s, THEN conjunct1])
  then have n: "ls_notes (lsRated\<lparr>ls_ratings := Stored m'\<rparr>) = Unparsable"
    by (simp add: lsRated_def)
  from s b n have "\<exists>m'. saveRating noOther ''A U'' 4 lsRated = Inr (lsRated\<lparr>ls_ratings := Stored m'\<rparr>)
          \<and> m' ''B U'' = Some \<lparr>agg_sum = 2, agg_count = 1\<rparr>
          \<and> ls_notes (lsRated\<lparr>ls_ratings := Stored m'\<rparr>) = Unparsable"
    by blast
  with l ne show ?thesis
    by (intro conjI)
qed

text \<open>
  C7. A stored value that is corrupt or unparsable reads as the empty map and the empty
  sequence, and no failure gets out. That holds for a text \<^verbatim>\<open>JSON.parse\<close> rejects. A
  text that parses to a value of another shape is returned as it is: with \<^verbatim>\<open>null\<close>
  stored under both keys, \<^verbatim>\<open>loadRatings\<close> and \<^verbatim>\<open>loadNotes\<close> return
  \<^verbatim>\<open>null\<close>, and \<^verbatim>\<open>saveRating\<close>, \<^verbatim>\<open>saveNoteLocal\<close> and the rendering of a table
  row throw on it; with \<^verbatim>\<open>5\<close> stored, or \<^verbatim>\<open>[]\<close> for the ratings and \<^verbatim>\<open>{}\<close> for
  the notes, the read paths return these values and the row throws.
\<close>

theorem read_paths_return_other_shapes:
  "ls_ratings lsNull = Misshapen JsNull \<and> ls_notes lsNull = Misshapen JsNull
   \<and> loadRatings lsNull = Wrong JsNull \<and> loadRatings lsNull \<noteq> Shaped Map.empty
   \<and> loadNotes lsNull = Wrong JsNull \<and> loadNotes lsNull \<noteq> Shaped []
   \<and> saveRating other ''A U'' 4 lsNull = Inl TypeError
   \<and> saveNoteLocal nPlain lsNull = Inl TypeError
   \<and> rowHtml ns fx avgOther lsNull eA = Inl TypeError
   \<and> loadRatings lsFive = Wrong (JsNumber 5) \<and> loadNotes lsFive = Wrong (JsNumber 5)
   \<and> rowHtml ns fx avgOther lsFive eA = Inl TypeError
   \<and> loadRatings lsSwapped = Wrong (JsArray []) \<and> loadNotes lsSwapped = Wrong (JsObject [])
   \<and> rowHtml ns fx avgOther lsSwapped eA = Inl TypeError
   \<and> loadRatings lsBroken = Shaped Map.empty \<and> loadNotes lsBroken = Shaped []"
proof -
  have r0: "loadRatings lsNull = Wrong JsNull" and n0: "loadNotes lsNull = Wrong JsNull"
    by (simp_all add: lsNull_def loadRatings_def loadNotes_def parseItem_def)
  have r5: "loadRatings lsFive = Wrong (JsNumber 5)" and n5: "loadNotes lsFive = Wrong (JsNumber 5)"
    by (simp_all add: lsFive_def loadRatings_def loadNotes_def parseItem_def)
  have rs: "loadRatings lsSwapped = Wrong (JsArray [])"
    and ns: "loadNotes lsSwapped = Wrong (JsObject [])"
    by (simp_all add: lsSwapped_def loadRatings_def loadNotes_def parseItem_def)
  have rb: "loadRatings lsBroken = Shaped Map.empty" and nb: "loadNotes lsBroken = Shaped []"
    by (simp_all add: lsBroken_def loadRatings_def loadNotes_def parseItem_def)
  have i: "ls_ratings lsNull = Misshapen JsNull" "ls_notes lsNull = Misshapen JsNull"
    by (simp_all add: lsNull_def)
  have d: "loadRatings lsNull \<noteq> Shaped Map.empty" "loadNotes lsNull \<noteq> Shaped []"
    by (simp_all add: r0 n0)
  have s: "saveRating other ''A U'' 4 lsNull = Inl TypeError"
    by (rule saveRating_null[OF r0])
  have t: "saveNoteLocal nPlain lsNull = Inl TypeError"
    by (simp add: saveNoteLocal_def n0)
  have h0: "rowHtml ns fx avgOther lsNull eA = Inl TypeError"
    by (simp add: rowHtml_def rowAverage_def r0)
  have h5: "rowHtml ns fx avgOther lsFive eA = Inl TypeError"
    by (simp add: rowHtml_def rowAverage_def notesCount_def r5 n5)
  have hs: "rowHtml ns fx avgOther lsSwapped eA = Inl TypeError"
    by (simp add: rowHtml_def rowAverage_def notesCount_def rs ns)
  show ?thesis
    by (intro conjI i r0 d(1) n0 d(2) s t h0 r5 n5 h5 rs ns hs rb nb)
qed

section \<open>Claims about the data load\<close>




section \<open>Claims about escaping\<close>



section \<open>Claims about the CSV export\<close>

text \<open>
  C5. For a view that is not empty, the exported text is the header line
  \<^verbatim>\<open>rank,university,country,score\<close> followed by one line per row in the order of the
  view, the lines joined by line feeds; in a line the university and the country stand in
  double quotes with each double quote of theirs doubled, and the score field is empty
  when the score is absent. Read back as comma-separated text, the export gives the
  header and then the four fields of every row, from which rank, university, country and
  score are recovered, given that the numbers print without comma, quote or line feed
  and read back as themselves. An empty view gives the alert and no text.
\<close>

theorem exportToCSV_roundtrip:
  "(rows \<noteq> [] \<longrightarrow>
      exportToCSV ns rows =
        Inr (join [CHR 0x0A]
              (''rank,university,country,score'' #
               map (\<lambda>r. ns (rank r) @ '','' @
                      [dquote] @ concat (map (\<lambda>x. if x = dquote then [dquote, dquote] else [x]) (university r)) @ [dquote]
                      @ '','' @
                      [dquote] @ concat (map (\<lambda>x. if x = dquote then [dquote, dquote] else [x]) (country r)) @ [dquote]
                      @ '','' @
                      (case score r of None \<Rightarrow> [] | Some n \<Rightarrow> numberToString ns n)) rows)))
   \<and> (rows \<noteq> [] \<and> (\<forall>r \<in> set rows. printable ns r \<and> readsBack ns sn r) \<longrightarrow>
        (\<exists>csv. exportToCSV ns rows = Inr csv
           \<and> parseCsv csv = csvHeader # map (fieldsOf ns) rows
           \<and> map (readEntry sn) (tl (parseCsv csv)) = map (\<lambda>r. Some (valuesOf r)) rows))
   \<and> exportToCSV ns [] = Inl ''No rows to export''"
proof (intro conjI impI)
  assume ne: "rows \<noteq> []"
  have l: "csvLine ns r = ns (rank r) @ '','' @
                      [dquote] @ concat (map (\<lambda>x. if x = dquote then [dquote, dquote] else [x]) (university r)) @ [dquote]
                      @ '','' @
                      [dquote] @ concat (map (\<lambda>x. if x = dquote then [dquote, dquote] else [x]) (country r)) @ [dquote]
                      @ '','' @
                      (case score r of None \<Rightarrow> [] | Some n \<Rightarrow> numberToString ns n)" for r :: "'a entry_scheme"
    by (simp add: csvLine_def quoted_def replaceAll_concat)
  show "exportToCSV ns rows =
        Inr (join [CHR 0x0A]
              (''rank,university,country,score'' #
               map (\<lambda>r. ns (rank r) @ '','' @
                      [dquote] @ concat (map (\<lambda>x. if x = dquote then [dquote, dquote] else [x]) (university r)) @ [dquote]
                      @ '','' @
                      [dquote] @ concat (map (\<lambda>x. if x = dquote then [dquote, dquote] else [x]) (country r)) @ [dquote]
                      @ '','' @
                      (case score r of None \<Rightarrow> [] | Some n \<Rightarrow> numberToString ns n)) rows))"
    by (simp only: exportToCSV_eq[OF ne] l[symmetric])
next
  assume a: "rows \<noteq> [] \<and> (\<forall>r \<in> set rows. printable ns r \<and> readsBack ns sn r)"
  then have ne: "rows \<noteq> []" and pr: "\<forall>x \<in> set rows. printable ns x"
    and rb: "\<forall>x \<in> set rows. readsBack ns sn x"
    by blast+
  let ?csv = "join [CHR 0x0A] (''rank,university,country,score'' # map (csvLine ns) rows)"
  have p: "parseCsv ?csv = csvHeader # map (fieldsOf ns) rows"
    by (rule parse_export[OF pr ne])
  have "map (readEntry sn) (tl (parseCsv ?csv)) = map (\<lambda>r. readEntry sn (fieldsOf ns r)) rows"
    by (simp add: p)
  also have "\<dots> = map (\<lambda>r. Some (valuesOf r)) rows"
    using rb by (simp add: readEntry_fieldsOf)
  finally have q: "map (readEntry sn) (tl (parseCsv ?csv)) = map (\<lambda>r. Some (valuesOf r)) rows" .
  from exportToCSV_eq[OF ne] p q
  show "\<exists>csv. exportToCSV ns rows = Inr csv
           \<and> parseCsv csv = csvHeader # map (fieldsOf ns) rows
           \<and> map (readEntry sn) (tl (parseCsv csv)) = map (\<lambda>r. Some (valuesOf r)) rows"
    by blast
next
  show "exportToCSV ns [] = Inl ''No rows to export''"
    by (simp add: exportToCSV_def)
qed

theorem exportToCSV_roundtrip_witness:
  "[eQ, eB] \<noteq> []
   \<and> printable decimal eQ \<and> readsBack decimal readNumber eQ
   \<and> printable decimal eB \<and> readsBack decimal readNumber eB
   \<and> (\<exists>csv. exportToCSV decimal [eQ, eB] = Inr csv
         \<and> map (readEntry readNumber) (tl (parseCsv csv))
             = [Some (Fin 7, [CHR ''Q'', dquote, CHR '','', CHR 0x0A, CHR ''U''], ''X'', None),
                Some (Fin 2, ''B U'', ''Y'', Some (Fin 80))])"
proof -
  have ne: "[eQ, eB] \<noteq> []"
    by simp
  have h: "[eQ, eB] \<noteq> [] \<and> (\<forall>r \<in> set [eQ, eB]. printable decimal r \<and> readsBack decimal readNumber r)"
    by (simp add: ex_printable ex_readsBack)
  have v: "map (\<lambda>r. Some (valuesOf r)) [eQ, eB]
           = [Some (Fin 7, [CHR ''Q'', dquote, CHR '','', CHR 0x0A, CHR ''U''], ''X'', None),
              Some (Fin 2, ''B U'', ''Y'', Some (Fin 80))]"
    by (simp add: valuesOf_def eQ_def eB_def)
  from exportToCSV_roundtrip[of "[eQ, eB]" decimal readNumber, THEN conjunct2, THEN conjunct1,
      THEN mp, OF h]
  obtain csv where c: "exportToCSV decimal [eQ, eB] = Inr csv"
    and m: "map (readEntry readNumber) (tl (parseCsv csv)) = map (\<lambda>r. Some (valuesOf r)) [eQ, eB]"
    by blast
  from c m v have "\<exists>csv. exportToCSV decimal [eQ, eB] = Inr csv
         \<and> map (readEntry readNumber) (tl (parseCsv csv))
             = [Some (Fin 7, [CHR ''Q'', dquote, CHR '','', CHR 0x0A, CHR ''U''], ''X'', None),
                Some (Fin 2, ''B U'', ''Y'', Some (Fin 80))]"
    by simp
  with ne ex_printable ex_readsBack show ?thesis
    by blast
qed

end
